theory Spec2Isabelle
  imports Main "HOL-Library.Sublist"
begin

section \<open>Python string operations used by aibuddy.py\<close>

text \<open>
  Strings are lists of characters. The model covers ASCII text: \<open>str.lower\<close> maps the
  letters A-Z, \<open>str.strip\<close> removes the ASCII characters for which \<open>str.isspace\<close> holds.
  No character outside ASCII lowers to a letter of the markers the program searches for.
\<close>

text \<open>\<open>s.startswith(p)\<close>\<close>

fun starts_with :: "string \<Rightarrow> string \<Rightarrow> bool" where
  "starts_with s [] = True"
| "starts_with [] (p # ps) = False"
| "starts_with (c # s) (p # ps) = (c = p \<and> starts_with s ps)"

text \<open>\<open>s.endswith(p)\<close>\<close>

definition ends_with :: "string \<Rightarrow> string \<Rightarrow> bool" where
  "ends_with s p = starts_with (rev s) (rev p)"

text \<open>\<open>p in s\<close>: \<open>p\<close> occurs in \<open>s\<close> as a contiguous substring.\<close>

fun contains :: "string \<Rightarrow> string \<Rightarrow> bool" where
  "contains [] p = (p = [])"
| "contains (c # s) p = (starts_with (c # s) p \<or> contains s p)"

text \<open>\<open>c.lower()\<close> on one ASCII character.\<close>

definition lower_char :: "char \<Rightarrow> char" where
  "lower_char c =
     (case map_of (zip ''ABCDEFGHIJKLMNOPQRSTUVWXYZ'' ''abcdefghijklmnopqrstuvwxyz'') c of
        None \<Rightarrow> c
      | Some d \<Rightarrow> d)"

text \<open>\<open>s.lower()\<close>\<close>

definition lower :: "string \<Rightarrow> string" where
  "lower s = map lower_char s"

text \<open>\<open>c.isspace()\<close> on one ASCII character: tab, line feed, vertical tab, form feed,
  carriage return, the four separators 0x1C-0x1F, and the space.\<close>

definition is_space :: "char \<Rightarrow> bool" where
  "is_space c =
     (c = CHR 0x09 \<or> c = CHR 0x0A \<or> c = CHR 0x0B \<or> c = CHR 0x0C \<or> c = CHR 0x0D \<or>
      c = CHR 0x1C \<or> c = CHR 0x1D \<or> c = CHR 0x1E \<or> c = CHR 0x1F \<or> c = CHR 0x20)"

text \<open>\<open>s.strip()\<close>\<close>

definition strip :: "string \<Rightarrow> string" where
  "strip s = rev (dropWhile is_space (rev (dropWhile is_space s)))"

text \<open>\<open>s.split(d)\<close> for a one-character separator \<open>d\<close>. The result is never empty
  (\<open>''''.split(d)\<close> is \<open>['''']\<close>), so the first branch of the case is never taken.\<close>

fun split_on :: "char \<Rightarrow> string \<Rightarrow> string list" where
  "split_on d [] = [[]]"
| "split_on d (c # cs) =
     (if c = d then [] # split_on d cs
      else (case split_on d cs of
              [] \<Rightarrow> [[c]]
            | l # ls \<Rightarrow> (c # l) # ls))"

text \<open>\<open>sep.join(xs)\<close>\<close>

fun join :: "string \<Rightarrow> string list \<Rightarrow> string" where
  "join sep [] = []"
| "join sep [x] = x"
| "join sep (x # y # ys) = x @ sep @ join sep (y # ys)"

text \<open>\<open>s.replace(old, '''')\<close> for a non-empty \<open>old\<close>: the occurrences of \<open>old\<close> are deleted
  from left to right, without overlap. The program calls it with non-empty literals only.\<close>

fun remove_all :: "string \<Rightarrow> string \<Rightarrow> string" where
  "remove_all old [] = []"
| "remove_all old (c # cs) =
     (if starts_with (c # cs) old then remove_all old (drop (length old - 1) cs)
      else c # remove_all old cs)"

section \<open>The environment and the trace of effects\<close>

text \<open>
  The program talks to a user, a shell, the file system and an HTTP server. Each effect is
  recorded as an event. The environment answers a request as a function of the request and
  of the events so far, so any sequence of answers of a real run is some environment.
  Assumptions on the environment: every prompt of \<open>click.confirm\<close> is answered, the
  configuration and history files are readable and hold JSON of the expected shape, the
  launcher script can be written, and the program is run as a script.
\<close>

text \<open>What \<open>subprocess.run(command, shell=True, text=True, capture_output=True)\<close> gives:
  stdout, stderr and the return code, or an exception with its message.\<close>

datatype proc_result = Completed string string int | RunRaised string

text \<open>What evaluating \<open>response.json()["choices"][0]["message"]["content"]\<close> meets: an
  exception with its message while decoding or reaching into the body, or the message
  contents of the choices (an empty list of choices raises IndexError at \<open>[0]\<close>).\<close>

datatype json_body = BadBody string | Choices "string list"

text \<open>What \<open>requests.post\<close> gives: a response with its status code and body, or an
  exception (DNS failure, refused connection, timeout) with its message.\<close>

datatype http_result = HttpResponse int json_body | HttpFault string

datatype event =
    Echo string
  | EchoStyled string string
  | Confirm string bool
  | HttpGet string int "int option"
  | HttpPost string int string http_result
  | PathExists string bool
  | WriteLauncher string string int int int string
  | Chmod
  | Popen
  | Sleep nat
  | Run string proc_result
  | LoadConfig
  | SaveHistory string string

text \<open>The configuration file, a JSON object: a key may be missing (\<open>config.get(key, default)\<close>).\<close>

record config =
  model_path :: "string option"
  server_host :: "string option"
  server_port :: "int option"
  context_length :: "int option"
  thread_count :: "int option"

text \<open>\<open>http_get\<close> is the status code of GET /health, or None when the request raises.\<close>

record env =
  config_dir :: string
  stored_config :: config
  http_get :: "string \<Rightarrow> int \<Rightarrow> event list \<Rightarrow> int option"
  http_post :: "string \<Rightarrow> int \<Rightarrow> string \<Rightarrow> event list \<Rightarrow> http_result"
  path_exists :: "string \<Rightarrow> event list \<Rightarrow> bool"
  shell :: "string \<Rightarrow> event list \<Rightarrow> proc_result"
  user_confirm :: "string \<Rightarrow> event list \<Rightarrow> bool"

text \<open>\<open>sys.exit(code)\<close> is the only exception of the program that leaves a command.\<close>

datatype error = SysExit int

definition MODEL_PATH :: string where
  "MODEL_PATH = ''/home/katana/projects/linux/aibuddy/agentica-org_DeepScaleR-1.5B-Preview-Q8_0.gguf''"

text \<open>\<open>d.get(key, default)\<close>\<close>

definition get_or :: "'a \<Rightarrow> 'a option \<Rightarrow> 'a" where
  "get_or d x = (case x of None \<Rightarrow> d | Some v \<Rightarrow> v)"

text \<open>\<open>str(n)\<close> for an integer.\<close>

fun str_nat :: "nat \<Rightarrow> string" where
  "str_nat n =
     (if n < 10 then [''0123456789'' ! n]
      else str_nat (n div 10) @ [''0123456789'' ! (n mod 10)])"

declare str_nat.simps [simp del]

definition str_int :: "int \<Rightarrow> string" where
  "str_int i = (if i < 0 then CHR ''-'' # str_nat (nat (- i)) else str_nat (nat i))"

section \<open>The server: health probe and launch\<close>

definition load_config :: "env \<Rightarrow> event list \<Rightarrow> config \<times> event list" where
  "load_config e tr = (stored_config e, tr @ [LoadConfig])"

definition is_server_running :: "env \<Rightarrow> string \<Rightarrow> int \<Rightarrow> event list \<Rightarrow> bool \<times> event list" where
  "is_server_running e host port tr =
     (let r = http_get e host port tr
      in (r = Some 200, tr @ [HttpGet host port r]))"

text \<open>\<open>start_server\<close>: the launcher script is the fixed template of the source filled with
  the configuration directory, the model path, the port, the thread count, the context
  size and the host; the event \<open>WriteLauncher\<close> carries these values.\<close>

definition start_server :: "env \<Rightarrow> config \<Rightarrow> event list \<Rightarrow> (error + unit) \<times> event list" where
  "start_server e cfg tr =
     (let mp = get_or MODEL_PATH (model_path cfg);
          port = get_or 8080 (server_port cfg);
          ex = path_exists e mp tr;
          tr1 = tr @ [PathExists mp ex]
      in if \<not> ex then (Inl (SysExit 1), tr1 @ [Echo (''Error: Model not found at '' @ mp)])
         else (Inr (),
               tr1 @ [WriteLauncher (config_dir e) mp port
                        (get_or 4 (thread_count cfg))
                        (get_or 4096 (context_length cfg))
                        (get_or ''127.0.0.1'' (server_host cfg)),
                      Chmod, Popen,
                      Echo (''Server starting in background. Log: '' @ config_dir e @ ''/server.log'')]))"

text \<open>Lines 86-93 of \<open>call_llm_api\<close>: \<open>for _ in range(10)\<close> with its \<open>else\<close> branch; False is
  the exhausted loop.\<close>

fun wait_for_server :: "env \<Rightarrow> string \<Rightarrow> int \<Rightarrow> nat \<Rightarrow> event list \<Rightarrow> bool \<times> event list" where
  "wait_for_server e host port 0 tr = (False, tr)"
| "wait_for_server e host port (Suc n) tr =
     (case is_server_running e host port tr of
        (True, tr1) \<Rightarrow> (True, tr1)
      | (False, tr1) \<Rightarrow>
          wait_for_server e host port n (tr1 @ [Echo ''Waiting for server to start...'', Sleep 1]))"

text \<open>Lines 95-122 of \<open>call_llm_api\<close>: the request and the reading of its response. The
  result is the content, or None.\<close>

definition post_completion ::
  "env \<Rightarrow> string \<Rightarrow> int \<Rightarrow> string \<Rightarrow> event list \<Rightarrow> string option \<times> event list" where
  "post_completion e host port prompt tr =
     (let r = http_post e host port prompt tr;
          tr1 = tr @ [HttpPost host port prompt r]
      in case r of
           HttpResponse status body \<Rightarrow>
             if status = 200 then
               (case body of
                  Choices (c # cs) \<Rightarrow> (Some c, tr1)
                | Choices [] \<Rightarrow> (None, tr1 @ [Echo ''Error calling API: list index out of range''])
                | BadBody msg \<Rightarrow> (None, tr1 @ [Echo (''Error calling API: '' @ msg)]))
             else (None, tr1 @ [Echo (''Error: API returned status code '' @ str_int status)])
         | HttpFault msg \<Rightarrow> (None, tr1 @ [Echo (''Error calling API: '' @ msg)]))"

definition call_llm_api ::
  "env \<Rightarrow> string \<Rightarrow> config \<Rightarrow> event list \<Rightarrow> (error + string option) \<times> event list" where
  "call_llm_api e prompt cfg tr =
     (let host = get_or ''localhost'' (server_host cfg);
          port = get_or 8080 (server_port cfg)
      in case is_server_running e host port tr of
           (True, tr1) \<Rightarrow>
             (case post_completion e host port prompt tr1 of (r, tr2) \<Rightarrow> (Inr r, tr2))
         | (False, tr1) \<Rightarrow>
             (case start_server e cfg (tr1 @ [Echo ''Server is not running. Starting server...'']) of
                (Inl err, tr2) \<Rightarrow> (Inl err, tr2)
              | (Inr u, tr2) \<Rightarrow>
                  (case wait_for_server e host port 10 tr2 of
                     (False, tr3) \<Rightarrow> (Inr None, tr3 @ [Echo ''Failed to start server.''])
                   | (True, tr3) \<Rightarrow>
                       (case post_completion e host port prompt tr3 of
                          (r, tr4) \<Rightarrow> (Inr r, tr4)))))"


section \<open>The executor\<close>

text \<open>Line 178 of \<open>execute_command\<close>: the command contains one of the listed words as a
  substring.\<close>

definition danger_words :: "string list" where
  "danger_words =
     [''rm'', ''sudo'', ''dd'', ''mkfs'', ''> /dev'', ''chmod'', ''reboot'', ''shutdown'']"

definition is_dangerous :: "string \<Rightarrow> bool" where
  "is_dangerous command = list_ex (\<lambda>danger_word. contains command danger_word) danger_words"

text \<open>Lines 182-196 of \<open>execute_command\<close>: the subprocess and the text made of its output.
  The return code is not read.\<close>

definition run_subprocess :: "env \<Rightarrow> string \<Rightarrow> event list \<Rightarrow> string \<times> event list" where
  "run_subprocess e command tr =
     (let result = shell e command tr;
          tr1 = tr @ [Run command result]
      in case result of
           Completed out err rc \<Rightarrow>
             (if err \<noteq> [] then out @ ''\<newline>Errors:\<newline>'' @ err else out, tr1)
         | RunRaised msg \<Rightarrow> (''Error executing command: '' @ msg, tr1))"

definition execute_command :: "env \<Rightarrow> string \<Rightarrow> event list \<Rightarrow> string \<times> event list" where
  "execute_command e command tr =
     (let tr1 = tr @ [Echo (''\<newline>Executing: '' @ command @ ''\<newline>'')]
      in if is_dangerous command then
           (let ok = user_confirm e ''This command may modify your system. Proceed?'' tr1;
                tr2 = tr1 @ [Confirm ''This command may modify your system. Proceed?'' ok]
            in if \<not> ok then (''Command execution cancelled.'', tr2)
               else run_subprocess e command tr2)
         else run_subprocess e command tr1)"

text \<open>The check of \<open>generate\<close> (line 278) on the output of a command.\<close>

definition has_error :: "string \<Rightarrow> bool" where
  "has_error output =
     (contains (lower output) ''error'' \<or> contains (lower output) ''not found'')"

text \<open>The check of \<open>fix\<close> (line 319) on the output of a command.\<close>

definition has_error_fix :: "string \<Rightarrow> bool" where
  "has_error_fix output =
     (contains (lower output) ''error'' \<or> contains (lower output) ''not found'' \<or>
      contains (lower output) ''command not found'')"

section \<open>Extraction of a command from the model's response\<close>

text \<open>Lines 256-263 of \<open>generate\<close>.\<close>

definition extract_direct :: "string \<Rightarrow> string" where
  "extract_direct response =
     (let command = strip response;
          command1 =
            (if starts_with command ''```'' \<and> ends_with command ''```''
             then join ''\<newline>'' (butlast (tl (split_on CHR 0x0A command)))
             else command)
      in strip (remove_all ''```'' (remove_all ''```shell'' (remove_all ''```bash'' command1))))"

text \<open>Lines 221-228 of \<open>fix_command_errors\<close>: the loop over the lines of the response, with
  the flag \<open>in_code_block\<close>; the result is \<open>command_lines\<close>.\<close>

fun scan_lines :: "bool \<Rightarrow> string list \<Rightarrow> string list" where
  "scan_lines in_code_block [] = []"
| "scan_lines in_code_block (line # rest) =
     (if starts_with (strip line) ''```'' then scan_lines (\<not> in_code_block) rest
      else if in_code_block \<and> strip line \<noteq> [] \<and> \<not> starts_with line ''#''
           then line # scan_lines in_code_block rest
           else scan_lines in_code_block rest)"

definition command_lines :: "string \<Rightarrow> string list" where
  "command_lines response = scan_lines False (split_on CHR 0x0A response)"

text \<open>Lines 230-231: the candidate is \<open>command_lines[0]\<close> when the list is not empty.\<close>

definition extract_scan :: "string \<Rightarrow> string option" where
  "extract_scan response =
     (case command_lines response of [] \<Rightarrow> None | fixed_command # rest \<Rightarrow> Some fixed_command)"

section \<open>The repair path and the commands\<close>

definition repair_prompt :: "string \<Rightarrow> string \<Rightarrow> string" where
  "repair_prompt error_text original_command =
     ''\<newline>The following Linux command failed:\<newline>\<newline>```\<newline>'' @ original_command @
     ''\<newline>```\<newline>\<newline>With this error:\<newline>```\<newline>'' @ error_text @
     ''\<newline>```\<newline>\<newline>Please provide a corrected version of the command that will work, and briefly explain what was wrong.\<newline>''"

definition fix_command_errors ::
  "env \<Rightarrow> string \<Rightarrow> string \<Rightarrow> event list \<Rightarrow> (error + string option) \<times> event list" where
  "fix_command_errors e error_text original_command tr =
     (case load_config e tr of (cfg, tr0) \<Rightarrow>
      (case call_llm_api e (repair_prompt error_text original_command) cfg tr0 of
         (Inl err, tr1) \<Rightarrow> (Inl err, tr1)
       | (Inr None, tr1) \<Rightarrow> (Inr None, tr1)
       | (Inr (Some response), tr1) \<Rightarrow>
           if response = [] then (Inr None, tr1)
           else
             (let tr2 = tr1 @ [Echo (''\<newline>'' @ response @ ''\<newline>'')]
              in case extract_scan response of
                   None \<Rightarrow> (Inr None, tr2)
                 | Some fixed_command \<Rightarrow>
                     (let q = ''Would you like to execute the fixed command? ['' @ fixed_command @ '']'';
                          ok = user_confirm e q tr2;
                          tr3 = tr2 @ [Confirm q ok]
                      in if ok then
                           (case execute_command e fixed_command tr3 of
                              (out, tr4) \<Rightarrow> (Inr (Some out), tr4))
                         else (Inr None, tr3)))))"

text \<open>Line 250 of \<open>generate\<close>: the prompt.\<close>

definition generation_prompt :: "string \<Rightarrow> string" where
  "generation_prompt description =
     ''Generate a Linux bash command that will: '' @ description @
     ''\<newline>Provide ONLY the command with NO explanations.''"

text \<open>The command \<open>generate\<close>.\<close>

definition generate ::
  "env \<Rightarrow> string \<Rightarrow> bool \<Rightarrow> event list \<Rightarrow> (error + unit) \<times> event list" where
  "generate e description execute tr =
     (case load_config e tr of (cfg, tr0) \<Rightarrow>
      (case call_llm_api e (generation_prompt description) cfg
              (tr0 @ [Echo ''Generating command...'']) of
         (Inl err, tr2) \<Rightarrow> (Inl err, tr2)
       | (Inr None, tr2) \<Rightarrow> (Inr (), tr2 @ [Echo ''Failed to generate command.''])
       | (Inr (Some response), tr2) \<Rightarrow>
           if response = [] then (Inr (), tr2 @ [Echo ''Failed to generate command.''])
           else
             (let command = extract_direct response;
                  tr3 = tr2 @ [EchoStyled ''\<newline>Generated Command:'' ''green'',
                               EchoStyled (command @ ''\<newline>'') ''bright_white'',
                               SaveHistory description command]
              in if execute then
                   (case execute_command e command tr3 of
                      (output, tr4) \<Rightarrow>
                        (let tr5 = tr4 @ [EchoStyled ''\<newline>Output:'' ''green'', Echo output]
                         in if has_error output then
                              (let q = ''Would you like me to try to fix any errors in this command?'';
                                   ok = user_confirm e q tr5;
                                   tr6 = tr5 @ [Confirm q ok]
                               in if ok then
                                    (case fix_command_errors e output command tr6 of
                                       (Inl err, tr7) \<Rightarrow> (Inl err, tr7)
                                     | (Inr r, tr7) \<Rightarrow> (Inr (), tr7))
                                  else (Inr (), tr6))
                            else (Inr (), tr5)))
                 else (Inr (), tr3))))"

text \<open>The command \<open>fix\<close>.\<close>

definition fix_cmd :: "env \<Rightarrow> string list \<Rightarrow> event list \<Rightarrow> (error + unit) \<times> event list" where
  "fix_cmd e command tr =
     (case load_config e tr of (cfg, tr0) \<Rightarrow>
      (let cmd_str = join '' '' command;
           tr1 = tr0 @ [Echo ''Attempting to execute command first to see if it has errors...'']
       in case execute_command e cmd_str tr1 of
            (output, tr2) \<Rightarrow>
              if has_error_fix output then
                (let tr3 = tr2 @ [EchoStyled ''Command had errors:'' ''red'', Echo output,
                                  Echo ''\<newline>Attempting to fix the command...'']
                 in case fix_command_errors e output cmd_str tr3 of
                      (Inl err, tr4) \<Rightarrow> (Inl err, tr4)
                    | (Inr None, tr4) \<Rightarrow> (Inr (), tr4)
                    | (Inr (Some fixed_output), tr4) \<Rightarrow>
                        if fixed_output = [] then (Inr (), tr4)
                        else (Inr (), tr4 @ [EchoStyled ''\<newline>Output from fixed command:'' ''green'',
                                             Echo fixed_output]))
              else (Inr (), tr2 @ [EchoStyled ''Command executed successfully:'' ''green'',
                                   Echo output])))"


section \<open>Observations on traces\<close>

text \<open>The events a call adds to the trace it was given.\<close>

definition new_events :: "event list \<Rightarrow> event list \<Rightarrow> event list" where
  "new_events tr tr' = drop (length tr) tr'"

fun is_run :: "event \<Rightarrow> bool" where
  "is_run (Run c r) = True"
| "is_run ev = False"

fun is_confirm :: "event \<Rightarrow> bool" where
  "is_confirm (Confirm q a) = True"
| "is_confirm ev = False"

fun is_probe :: "event \<Rightarrow> bool" where
  "is_probe (HttpGet h p r) = True"
| "is_probe ev = False"

fun is_post :: "event \<Rightarrow> bool" where
  "is_post (HttpPost h p q r) = True"
| "is_post ev = False"

text \<open>The events of \<open>start_server\<close>: the check of the model file, the launcher script
  written, made executable and started.\<close>

fun is_launch :: "event \<Rightarrow> bool" where
  "is_launch (PathExists f b) = True"
| "is_launch (WriteLauncher d m p t c h) = True"
| "is_launch Chmod = True"
| "is_launch Popen = True"
| "is_launch ev = False"

fun is_sleep :: "event \<Rightarrow> bool" where
  "is_sleep (Sleep n) = True"
| "is_sleep ev = False"

text \<open>A request to the model that carries the repair prompt of \<open>fix_command_errors\<close>.\<close>

fun is_repair_post :: "event \<Rightarrow> bool" where
  "is_repair_post (HttpPost h p q r) = starts_with q ''\<newline>The following Linux command failed:''"
| "is_repair_post ev = False"

text \<open>A confirmation prompt comes before the first subprocess, if there is one.\<close>

definition confirmed_before_run :: "event list \<Rightarrow> bool" where
  "confirmed_before_run evs = list_ex is_confirm (takeWhile (\<lambda>ev. \<not> is_run ev) evs)"

definition executions :: "event list \<Rightarrow> nat" where
  "executions evs = length (filter is_run evs)"

definition diagnoses :: "event list \<Rightarrow> nat" where
  "diagnoses evs = length (filter is_repair_post evs)"

text \<open>The subprocesses run after a repair request: \<open>seen\<close> says that one was made.\<close>

fun repairs_from :: "bool \<Rightarrow> event list \<Rightarrow> nat" where
  "repairs_from seen [] = 0"
| "repairs_from seen (ev # evs) =
     (if seen \<and> is_run ev then 1 else 0) + repairs_from (seen \<or> is_repair_post ev) evs"

definition repairs :: "event list \<Rightarrow> nat" where
  "repairs evs = repairs_from False evs"

text \<open>The two tests of the loop of \<open>fix_command_errors\<close> (lines 224 and 227), named for
  the statements about it: a line that toggles the flag, and a line that is collected
  when the flag is set.\<close>

definition is_fence_line :: "string \<Rightarrow> bool" where
  "is_fence_line line = starts_with (strip line) ''```''"

definition is_collected_line :: "string \<Rightarrow> bool" where
  "is_collected_line line = (strip line \<noteq> [] \<and> \<not> starts_with line ''#'')"

section \<open>Concrete environments\<close>

text \<open>An environment whose answers do not depend on the request: every subprocess gives
  \<open>result\<close>, every prompt is answered \<open>answer\<close>, every health probe gives \<open>health\<close>, every
  completion request gives \<open>reply\<close>, and the model file exists iff \<open>model_file\<close>.\<close>

definition test_env :: "proc_result \<Rightarrow> bool \<Rightarrow> int option \<Rightarrow> http_result \<Rightarrow> bool \<Rightarrow> env" where
  "test_env result answer health reply model_file =
     \<lparr> config_dir = ''/home/user/.config/aibuddy'',
       stored_config = \<lparr> model_path = None, server_host = None, server_port = None,
                         context_length = None, thread_count = None \<rparr>,
       http_get = (\<lambda>host port tr. health),
       http_post = (\<lambda>host port prompt tr. reply),
       path_exists = (\<lambda>file tr. model_file),
       shell = (\<lambda>command tr. result),
       user_confirm = (\<lambda>prompt tr. answer) \<rparr>"

text \<open>An environment in which every command fails with \<open>command not found\<close> on stderr and
  return code 127, the server is up, the model answers with one fenced command, and the
  user accepts every prompt.\<close>

definition failing_env :: env where
  "failing_env =
     test_env (Completed [] ''bash: catt: command not found'' 127) True (Some 200)
       (HttpResponse 200 (Choices [''Use cat instead:\<newline>```bash\<newline>cat file.txt\<newline>```'']))
       True"

text \<open>The configuration file with no key set: every \<open>get\<close> gives its default.\<close>

definition default_config :: config where
  "default_config = \<lparr> model_path = None, server_host = None, server_port = None,
                         context_length = None, thread_count = None \<rparr>"

section \<open>Facts about the string operations\<close>

lemma starts_with_prefix: "starts_with s p = prefix p s"
  by (induction s p rule: starts_with.induct) auto

lemma contains_sublist: "contains s p = sublist p s"
proof (induction s)
  case Nil
  then show ?case by simp
next
  case (Cons c s)
  then show ?case by (simp add: starts_with_prefix sublist_Cons_right)
qed

lemma contains_append: "contains (a @ p @ b) p"
  by (simp add: contains_sublist)

lemma lower_append: "lower (a @ b) = lower a @ lower b"
  by (simp add: lower_def)

lemma lower_errors: "lower ''\<newline>Errors:\<newline>'' = ''\<newline>'' @ ''error'' @ ''s:\<newline>''"
  by (simp add: lower_def lower_char_def)

lemma contains_errors_line: "contains (lower (out @ ''\<newline>Errors:\<newline>'' @ err)) ''error''"
proof -
  have "lower (out @ ''\<newline>Errors:\<newline>'' @ err)
        = (lower out @ ''\<newline>'') @ ''error'' @ (''s:\<newline>'' @ lower err)"
    by (simp only: lower_append lower_errors append_assoc)
  then show ?thesis
    by (simp only: contains_append)
qed

section \<open>Facts about the executor\<close>

lemma new_events_append [simp]: "new_events tr (tr @ evs) = evs"
  by (simp add: new_events_def)

lemma run_subprocess_trace:
  "snd (run_subprocess e command tr) = tr @ [Run command (shell e command tr)]"
  by (simp add: run_subprocess_def Let_def split: proc_result.splits)

lemma run_subprocess_stderr:
  "shell e command tr = Completed out err rc \<Longrightarrow> err \<noteq> [] \<Longrightarrow>
   fst (run_subprocess e command tr) = out @ ''\<newline>Errors:\<newline>'' @ err"
  by (simp add: run_subprocess_def Let_def)

text \<open>The classification of line 178 is substring containment of one of the words.\<close>

lemma is_dangerous_iff: "is_dangerous command = (\<exists>w \<in> set danger_words. sublist w command)"
  by (simp add: is_dangerous_def list_ex_iff contains_sublist)

lemma dangerous_rm: "is_dangerous ''rm -rf /tmp/x''"
  by (simp add: is_dangerous_def danger_words_def)

lemma not_dangerous_ls: "\<not> is_dangerous ''ls -la''"
  by (simp add: is_dangerous_def danger_words_def)

text \<open>
  Claim C2. A command that contains a word of the list is run only after the confirmation
  prompt: the prompt comes before any subprocess, and the subprocess is run iff the answer
  is yes. A command that contains none of the words is run, once, with no prompt.
\<close>

theorem execute_command_gate:
  "(is_dangerous command \<longrightarrow>
      confirmed_before_run (new_events tr (snd (execute_command e command tr))) \<and>
      filter is_run (new_events tr (snd (execute_command e command tr))) =
        (if user_confirm e ''This command may modify your system. Proceed?''
              (tr @ [Echo (''\<newline>Executing: '' @ command @ ''\<newline>'')])
         then [Run command (shell e command
                 (tr @ [Echo (''\<newline>Executing: '' @ command @ ''\<newline>''),
                        Confirm ''This command may modify your system. Proceed?'' True]))]
         else [])) \<and>
   (\<not> is_dangerous command \<longrightarrow>
      \<not> list_ex is_confirm (new_events tr (snd (execute_command e command tr))) \<and>
      filter is_run (new_events tr (snd (execute_command e command tr))) =
        [Run command (shell e command (tr @ [Echo (''\<newline>Executing: '' @ command @ ''\<newline>'')]))])"
  by (simp add: execute_command_def Let_def run_subprocess_trace confirmed_before_run_def)

theorem execute_command_gate_witness:
  "is_dangerous ''rm -rf /tmp/x'' \<and>
   confirmed_before_run
     (new_events [] (snd (execute_command
        (test_env (Completed ''a.txt'' [] 0) False (Some 200) (HttpFault ''timed out'') True)
        ''rm -rf /tmp/x'' []))) \<and>
   filter is_run
     (new_events [] (snd (execute_command
        (test_env (Completed ''a.txt'' [] 0) False (Some 200) (HttpFault ''timed out'') True)
        ''rm -rf /tmp/x'' []))) = [] \<and>
   \<not> is_dangerous ''ls -la'' \<and>
   \<not> list_ex is_confirm
     (new_events [] (snd (execute_command
        (test_env (Completed ''a.txt'' [] 0) False (Some 200) (HttpFault ''timed out'') True)
        ''ls -la'' []))) \<and>
   filter is_run
     (new_events [] (snd (execute_command
        (test_env (Completed ''a.txt'' [] 0) False (Some 200) (HttpFault ''timed out'') True)
        ''ls -la'' []))) = [Run ''ls -la'' (Completed ''a.txt'' [] 0)]"
  using execute_command_gate [of "''rm -rf /tmp/x''" "[]"
          "test_env (Completed ''a.txt'' [] 0) False (Some 200) (HttpFault ''timed out'') True"]
        execute_command_gate [of "''ls -la''" "[]"
          "test_env (Completed ''a.txt'' [] 0) False (Some 200) (HttpFault ''timed out'') True"]
        dangerous_rm not_dangerous_ls
  by (simp add: test_env_def)

text \<open>
  Claim C5, as stated, fails: \<open>execute_command\<close> returns a string and nothing else, so there
  is no exit status, and the text returned for a declined command is not a mark of its own.
  Here the declined \<open>rm -rf /tmp/x\<close>, for which no subprocess ran, and \<open>cat note.txt\<close>, which
  ran with return code 0 and printed the same sentence, give the same result.
\<close>

theorem declined_no_sentinel_counterexample:
  "fst (execute_command
          (test_env (Completed ''Command execution cancelled.'' [] 0) False (Some 200)
             (HttpFault ''timed out'') True)
          ''rm -rf /tmp/x'' []) =
   fst (execute_command
          (test_env (Completed ''Command execution cancelled.'' [] 0) False (Some 200)
             (HttpFault ''timed out'') True)
          ''cat note.txt'' []) \<and>
   filter is_run (snd (execute_command
          (test_env (Completed ''Command execution cancelled.'' [] 0) False (Some 200)
             (HttpFault ''timed out'') True)
          ''rm -rf /tmp/x'' [])) = [] \<and>
   filter is_run (snd (execute_command
          (test_env (Completed ''Command execution cancelled.'' [] 0) False (Some 200)
             (HttpFault ''timed out'') True)
          ''cat note.txt'' [])) =
     [Run ''cat note.txt'' (Completed ''Command execution cancelled.'' [] 0)]"
  by (simp add: execute_command_def run_subprocess_def Let_def test_env_def
        is_dangerous_def danger_words_def)

text \<open>
  Claim C5, amended. For every command that contains a word of the list and whose
  confirmation is declined, \<open>execute_command\<close> returns the text
  \<open>Command execution cancelled.\<close> and runs no subprocess.
\<close>

theorem declined_cancelled:
  "is_dangerous command \<Longrightarrow>
   \<not> user_confirm e ''This command may modify your system. Proceed?''
        (tr @ [Echo (''\<newline>Executing: '' @ command @ ''\<newline>'')]) \<Longrightarrow>
   fst (execute_command e command tr) = ''Command execution cancelled.'' \<and>
   \<not> list_ex is_run (new_events tr (snd (execute_command e command tr)))"
  by (simp add: execute_command_def Let_def)

theorem declined_cancelled_witness:
  "is_dangerous ''rm -rf /tmp/x'' \<and>
   \<not> user_confirm (test_env (Completed ''a.txt'' [] 0) False (Some 200) (HttpFault ''timed out'') True)
        ''This command may modify your system. Proceed?''
        ([] @ [Echo (''\<newline>Executing: '' @ ''rm -rf /tmp/x'' @ ''\<newline>'')]) \<and>
   fst (execute_command
          (test_env (Completed ''a.txt'' [] 0) False (Some 200) (HttpFault ''timed out'') True)
          ''rm -rf /tmp/x'' []) = ''Command execution cancelled.'' \<and>
   \<not> list_ex is_run (new_events [] (snd (execute_command
          (test_env (Completed ''a.txt'' [] 0) False (Some 200) (HttpFault ''timed out'') True)
          ''rm -rf /tmp/x'' [])))"
proof -
  let ?e = "test_env (Completed ''a.txt'' [] 0) False (Some 200) (HttpFault ''timed out'') True"
  have d: "is_dangerous ''rm -rf /tmp/x''" by (rule dangerous_rm)
  have n: "\<not> user_confirm ?e ''This command may modify your system. Proceed?''
        ([] @ [Echo (''\<newline>Executing: '' @ ''rm -rf /tmp/x'' @ ''\<newline>'')])"
    by (simp add: test_env_def)
  from declined_cancelled [OF d n] d n show ?thesis by blast
qed

text \<open>
  Claim C9. Whenever \<open>execute_command\<close> ran a subprocess whose stderr was not empty, the
  checks of \<open>generate\<close> and of \<open>fix\<close> on the returned text succeed, whatever stdout, stderr
  and the return code are: the text holds the line \<open>Errors:\<close>.
\<close>

theorem stderr_is_failure:
  assumes "Run c (Completed out err rc) \<in> set (new_events tr (snd (execute_command e command tr)))"
    and "err \<noteq> []"
  shows "has_error (fst (execute_command e command tr)) \<and>
         has_error_fix (fst (execute_command e command tr))"
proof -
  let ?tr1 = "tr @ [Echo (''\<newline>Executing: '' @ command @ ''\<newline>'')]"
  let ?p = "''This command may modify your system. Proceed?''"
  let ?tr2 = "?tr1 @ [Confirm ?p True]"
  have "fst (execute_command e command tr) = out @ ''\<newline>Errors:\<newline>'' @ err"
  proof (cases "is_dangerous command")
    case True
    show ?thesis
    proof (cases "user_confirm e ?p ?tr1")
      case ok: True
      with True have ex: "execute_command e command tr = run_subprocess e command ?tr2"
        by (simp add: execute_command_def Let_def)
      with assms(1) have "shell e command ?tr2 = Completed out err rc"
        by (simp add: run_subprocess_trace)
      with ex assms(2) show ?thesis by (simp add: run_subprocess_stderr)
    next
      case False
      with True assms(1) show ?thesis
        by (simp add: execute_command_def Let_def)
    qed
  next
    case False
    then have ex: "execute_command e command tr = run_subprocess e command ?tr1"
      by (simp add: execute_command_def Let_def)
    with assms(1) have "shell e command ?tr1 = Completed out err rc"
      by (simp add: run_subprocess_trace)
    with ex assms(2) show ?thesis by (simp add: run_subprocess_stderr)
  qed
  then show ?thesis
    by (simp only: has_error_def has_error_fix_def contains_errors_line simp_thms)
qed

theorem stderr_is_failure_witness:
  "Run ''ls -la'' (Completed ''a.txt'' ''warning: slow disk'' 0)
     \<in> set (new_events [] (snd (execute_command
          (test_env (Completed ''a.txt'' ''warning: slow disk'' 0) True (Some 200)
             (HttpFault ''timed out'') True)
          ''ls -la'' []))) \<and>
   ''warning: slow disk'' \<noteq> [] \<and>
   has_error (fst (execute_command
          (test_env (Completed ''a.txt'' ''warning: slow disk'' 0) True (Some 200)
             (HttpFault ''timed out'') True)
          ''ls -la'' [])) \<and>
   has_error_fix (fst (execute_command
          (test_env (Completed ''a.txt'' ''warning: slow disk'' 0) True (Some 200)
             (HttpFault ''timed out'') True)
          ''ls -la'' []))"
proof -
  let ?e = "test_env (Completed ''a.txt'' ''warning: slow disk'' 0) True (Some 200)
             (HttpFault ''timed out'') True"
  have r: "Run ''ls -la'' (Completed ''a.txt'' ''warning: slow disk'' 0)
     \<in> set (new_events [] (snd (execute_command ?e ''ls -la'' [])))"
    by (simp add: execute_command_def run_subprocess_def Let_def test_env_def
          is_dangerous_def danger_words_def new_events_def)
  have n: "''warning: slow disk'' \<noteq> []" by simp
  from stderr_is_failure [OF r n] r n show ?thesis by blast
qed

text \<open>
  Claim C10. The classification is substring containment, not a match on words: neither
  \<open>echo confirm\<close> nor \<open>cat information.txt\<close> has a word of the list among its words, both
  contain \<open>rm\<close>, and for both the executor asks for confirmation before it runs anything.
\<close>

theorem substring_gate:
  "is_dangerous ''echo confirm'' \<and> is_dangerous ''cat information.txt'' \<and>
   list_all (\<lambda>w. w \<notin> set danger_words) (split_on CHR '' '' ''echo confirm'') \<and>
   list_all (\<lambda>w. w \<notin> set danger_words) (split_on CHR '' '' ''cat information.txt'') \<and>
   confirmed_before_run (new_events tr (snd (execute_command e ''echo confirm'' tr))) \<and>
   confirmed_before_run (new_events tr (snd (execute_command e ''cat information.txt'' tr)))"
proof -
  have a: "is_dangerous ''echo confirm''" and b: "is_dangerous ''cat information.txt''"
    by (simp_all add: is_dangerous_def danger_words_def)
  have c: "list_all (\<lambda>w. w \<notin> set danger_words) (split_on CHR '' '' ''echo confirm'')"
    by (simp add: danger_words_def)
  have d: "list_all (\<lambda>w. w \<notin> set danger_words) (split_on CHR '' '' ''cat information.txt'')"
    by (simp add: danger_words_def)
  have g: "is_dangerous cmd \<Longrightarrow>
           confirmed_before_run (new_events tr (snd (execute_command e cmd tr)))" for cmd
    by (simp add: execute_command_def Let_def run_subprocess_def confirmed_before_run_def
          split: proc_result.splits)
  from a b c d g [OF a] g [OF b] show ?thesis by blast
qed

theorem substring_gate_witness:
  "is_dangerous ''echo confirm'' \<and>
   confirmed_before_run (new_events [] (snd (execute_command
      (test_env (Completed ''confirm'' [] 0) False (Some 200) (HttpFault ''timed out'') True)
      ''echo confirm'' []))) \<and>
   fst (execute_command
      (test_env (Completed ''confirm'' [] 0) False (Some 200) (HttpFault ''timed out'') True)
      ''echo confirm'' []) = ''Command execution cancelled.''"
proof -
  have "fst (execute_command
      (test_env (Completed ''confirm'' [] 0) False (Some 200) (HttpFault ''timed out'') True)
      ''echo confirm'' []) = ''Command execution cancelled.''"
    by (simp add: execute_command_def Let_def test_env_def is_dangerous_def danger_words_def)
  with substring_gate [of "[]"
      "test_env (Completed ''confirm'' [] 0) False (Some 200) (HttpFault ''timed out'') True"]
  show ?thesis by blast
qed

section \<open>Facts about the traces of the server and the completion client\<close>

lemma is_server_running_eq:
  "is_server_running e host port tr =
     (http_get e host port tr = Some 200, tr @ [HttpGet host port (http_get e host port tr)])"
  by (simp add: is_server_running_def Let_def)

lemma post_completion_events:
  "\<exists>evs. snd (post_completion e host port prompt tr) =
           tr @ HttpPost host port prompt (http_post e host port prompt tr) # evs \<and>
         length evs \<le> 1 \<and> filter is_run evs = [] \<and> filter is_post evs = [] \<and>
         filter is_launch evs = [] \<and> filter is_sleep evs = [] \<and> filter is_probe evs = []"
  by (simp add: post_completion_def Let_def split: http_result.splits json_body.splits list.splits)

lemma is_repair_post_is_post: "is_repair_post ev \<Longrightarrow> is_post ev"
  by (cases ev) simp_all

lemma no_post_no_repair_post: "filter is_post evs = [] \<Longrightarrow> filter is_repair_post evs = []"
  by (auto simp: filter_empty_conv dest: is_repair_post_is_post)

lemma execute_command_events:
  "\<exists>evs. snd (execute_command e command tr) = tr @ evs \<and>
         length (filter is_run evs) \<le> 1 \<and> filter is_post evs = [] \<and> filter is_probe evs = []"
  by (simp add: execute_command_def Let_def run_subprocess_trace)

lemma start_server_events:
  "\<exists>evs. snd (start_server e cfg tr) = tr @ evs \<and>
         filter is_run evs = [] \<and> filter is_post evs = []"
  by (simp add: start_server_def Let_def)

lemma wait_for_server_events:
  "\<exists>evs. snd (wait_for_server e host port n tr) = tr @ evs \<and>
         filter is_run evs = [] \<and> filter is_post evs = []"
proof (induction n arbitrary: tr)
  case 0
  then show ?case by simp
next
  case (Suc n)
  let ?r = "http_get e host port tr"
  let ?tr1 = "tr @ [HttpGet host port ?r]"
  show ?case
  proof (cases "?r = Some 200")
    case True
    then show ?thesis by (simp add: is_server_running_eq)
  next
    case False
    obtain evs where evs:
      "snd (wait_for_server e host port n (?tr1 @ [Echo ''Waiting for server to start...'', Sleep 1]))
         = (?tr1 @ [Echo ''Waiting for server to start...'', Sleep 1]) @ evs"
      "filter is_run evs = []" "filter is_post evs = []"
      using Suc.IH by blast
    from False have "snd (wait_for_server e host port (Suc n) tr) =
        tr @ ([HttpGet host port ?r, Echo ''Waiting for server to start...'', Sleep 1] @ evs)"
      using evs(1) by (simp add: is_server_running_eq)
    with evs(2,3) show ?thesis
      by (intro exI [of _ "[HttpGet host port ?r, Echo ''Waiting for server to start...'', Sleep 1] @ evs"]) simp
  qed
qed

text \<open>call_llm_api: first a probe; no subprocess; at most one request, with the prompt given.\<close>

lemma call_llm_api_events:
  "\<exists>evs. snd (call_llm_api e prompt cfg tr) = tr @ evs \<and>
         list_ex is_probe evs \<and> filter is_run evs = [] \<and>
         (filter is_post evs = [] \<or>
          (\<exists>h p r. filter is_post evs = [HttpPost h p prompt r]))"
proof -
  let ?h = "get_or ''localhost'' (server_host cfg)"
  let ?p = "get_or 8080 (server_port cfg)"
  let ?r = "http_get e ?h ?p tr"
  let ?tr1 = "tr @ [HttpGet ?h ?p ?r]"
  show ?thesis
  proof (cases "?r = Some 200")
    case True
    obtain evs where evs:
      "snd (post_completion e ?h ?p prompt ?tr1) =
         ?tr1 @ HttpPost ?h ?p prompt (http_post e ?h ?p prompt ?tr1) # evs"
      "filter is_run evs = []" "filter is_post evs = []"
      using post_completion_events [of e ?h ?p prompt ?tr1] by blast
    from True have "snd (call_llm_api e prompt cfg tr) =
        tr @ (HttpGet ?h ?p ?r # HttpPost ?h ?p prompt (http_post e ?h ?p prompt ?tr1) # evs)"
      using evs(1)
      by (simp add: call_llm_api_def Let_def is_server_running_eq split_beta)
    with evs(2,3) show ?thesis
      by (intro exI [of _ "HttpGet ?h ?p ?r # HttpPost ?h ?p prompt (http_post e ?h ?p prompt ?tr1) # evs"])
         simp
  next
    case False
    let ?tr1' = "?tr1 @ [Echo ''Server is not running. Starting server...'']"
    obtain sevs where sevs:
      "snd (start_server e cfg ?tr1') = ?tr1' @ sevs"
      "filter is_run sevs = []" "filter is_post sevs = []"
      using start_server_events [of e cfg ?tr1'] by blast
    show ?thesis
    proof (cases "fst (start_server e cfg ?tr1')")
      case (Inl err)
      with False have "snd (call_llm_api e prompt cfg tr) =
          tr @ (HttpGet ?h ?p ?r # Echo ''Server is not running. Starting server...'' # sevs)"
        using sevs(1)
        by (simp add: call_llm_api_def Let_def is_server_running_eq split_beta)
      with sevs(2,3) show ?thesis
        by (intro exI [of _ "HttpGet ?h ?p ?r # Echo ''Server is not running. Starting server...'' # sevs"])
           simp
    next
      case (Inr u)
      let ?tr2 = "?tr1' @ sevs"
      obtain wevs where wevs:
        "snd (wait_for_server e ?h ?p 10 ?tr2) = ?tr2 @ wevs"
        "filter is_run wevs = []" "filter is_post wevs = []"
        using wait_for_server_events [of e ?h ?p 10 ?tr2] by blast
      let ?tr3 = "?tr2 @ wevs"
      show ?thesis
      proof (cases "fst (wait_for_server e ?h ?p 10 ?tr2)")
        case True
        obtain evs where evs:
          "snd (post_completion e ?h ?p prompt ?tr3) =
             ?tr3 @ HttpPost ?h ?p prompt (http_post e ?h ?p prompt ?tr3) # evs"
          "filter is_run evs = []" "filter is_post evs = []"
          using post_completion_events [of e ?h ?p prompt ?tr3] by blast
        let ?new = "HttpGet ?h ?p ?r # Echo ''Server is not running. Starting server...'' # sevs @ wevs @
                    HttpPost ?h ?p prompt (http_post e ?h ?p prompt ?tr3) # evs"
        from False Inr True have "snd (call_llm_api e prompt cfg tr) = tr @ ?new"
          using sevs(1) wevs(1) evs(1)
          by (simp add: call_llm_api_def Let_def is_server_running_eq split_beta)
        with sevs(2,3) wevs(2,3) evs(2,3) show ?thesis
          by (intro exI [of _ ?new]) simp
      next
        case nw: False
        let ?new = "HttpGet ?h ?p ?r # Echo ''Server is not running. Starting server...'' # sevs @ wevs @
                    [Echo ''Failed to start server.'']"
        from False Inr nw have "snd (call_llm_api e prompt cfg tr) = tr @ ?new"
          using sevs(1) wevs(1)
          by (simp add: call_llm_api_def Let_def is_server_running_eq split_beta)
        with sevs(2,3) wevs(2,3) show ?thesis
          by (intro exI [of _ ?new]) simp
      qed
    qed
  qed
qed

lemma repairs_from_le: "repairs_from s evs \<le> length (filter is_run evs)"
proof (induction evs arbitrary: s)
  case Nil
  then show ?case by simp
next
  case (Cons a evs)
  from Cons.IH [of "s \<or> is_repair_post a"] show ?case by auto
qed

lemma repairs_from_append:
  "repairs_from s (a @ b) = repairs_from s a + repairs_from (s \<or> list_ex is_repair_post a) b"
  by (induction a arbitrary: s) auto

lemma repairs_from_quiet: "filter is_repair_post a = [] \<Longrightarrow> repairs_from False a = 0"
  by (induction a) (auto split: if_splits)

lemma fix_command_errors_events:
  "\<exists>evs. snd (fix_command_errors e error_text original_command tr) = tr @ evs \<and>
         list_ex is_probe evs \<and> length (filter is_run evs) \<le> 1 \<and>
         length (filter is_post evs) \<le> 1"
proof -
  let ?q = "repair_prompt error_text original_command"
  let ?tr0 = "tr @ [LoadConfig]"
  obtain levs where levs:
    "snd (call_llm_api e ?q (stored_config e) ?tr0) = ?tr0 @ levs"
    "list_ex is_probe levs" "filter is_run levs = []" "length (filter is_post levs) \<le> 1"
    using call_llm_api_events [of e ?q "stored_config e" ?tr0] by fastforce
  let ?tr1 = "?tr0 @ levs"
  show ?thesis
  proof (cases "fst (call_llm_api e ?q (stored_config e) ?tr0)")
    case (Inl err)
    then have "snd (fix_command_errors e error_text original_command tr) = tr @ (LoadConfig # levs)"
      using levs(1) by (simp add: fix_command_errors_def load_config_def split_beta)
    with levs(2-4) show ?thesis
      by (intro exI [of _ "LoadConfig # levs"]) simp
  next
    case (Inr resp)
    show ?thesis
    proof (cases "resp = None \<or> resp = Some [] \<or> extract_scan (the resp) = None")
      case True
      then have "\<exists>x. length x \<le> 1 \<and> filter is_run x = [] \<and> filter is_post x = [] \<and>
          snd (fix_command_errors e error_text original_command tr) = tr @ (LoadConfig # levs @ x)"
        using levs(1) Inr
        by (cases resp) (auto simp: fix_command_errors_def load_config_def split_beta Let_def)
      then obtain x where x: "filter is_run x = []" "filter is_post x = []"
          "snd (fix_command_errors e error_text original_command tr) = tr @ (LoadConfig # levs @ x)"
        by blast
      with levs(2-4) show ?thesis
        by (intro exI [of _ "LoadConfig # levs @ x"]) simp
    next
      case False
      then obtain r fc where r: "resp = Some r" "r \<noteq> []" "extract_scan r = Some fc"
        by (cases resp) auto
      let ?tr2 = "?tr1 @ [Echo (''\<newline>'' @ r @ ''\<newline>'')]"
      let ?p = "''Would you like to execute the fixed command? ['' @ fc @ '']''"
      let ?tr3 = "?tr2 @ [Confirm ?p (user_confirm e ?p ?tr2)]"
      obtain xevs where xevs:
        "snd (execute_command e fc ?tr3) = ?tr3 @ xevs"
        "length (filter is_run xevs) \<le> 1" "filter is_post xevs = []"
        using execute_command_events [of e fc ?tr3] by blast
      have "\<exists>x. (x = [] \<or> x = xevs) \<and>
          snd (fix_command_errors e error_text original_command tr) =
            tr @ (LoadConfig # levs @ [Echo (''\<newline>'' @ r @ ''\<newline>''),
                                       Confirm ?p (user_confirm e ?p ?tr2)] @ x)"
        using levs(1) Inr r xevs(1)
        by (cases "user_confirm e ?p ?tr2")
           (simp_all add: fix_command_errors_def load_config_def split_beta Let_def)
      then obtain x where x: "x = [] \<or> x = xevs"
          "snd (fix_command_errors e error_text original_command tr) =
            tr @ (LoadConfig # levs @ [Echo (''\<newline>'' @ r @ ''\<newline>''),
                                       Confirm ?p (user_confirm e ?p ?tr2)] @ x)"
        by blast
      from x(1) xevs(2,3) have "length (filter is_run x) \<le> 1" "filter is_post x = []"
        by auto
      with levs(2-4) x(2) show ?thesis
        by (intro exI [of _ "LoadConfig # levs @ [Echo (''\<newline>'' @ r @ ''\<newline>''),
                                       Confirm ?p (user_confirm e ?p ?tr2)] @ x"]) simp
    qed
  qed
qed

lemma str_int_500: "str_int 500 = ''500''"
  by (simp add: str_int_def str_nat.simps)

text \<open>
  Claim C6. Under every configuration, when the health probe of \<open>call_llm_api\<close> succeeds,
  the model file is not looked for, no launcher script is written, made executable or
  started, nothing is waited for, the probe is made once, and the next event is the
  completion request: the call goes on to it at once.
\<close>

theorem healthy_no_launch:
  assumes "http_get e (get_or ''localhost'' (server_host cfg)) (get_or 8080 (server_port cfg)) tr
             = Some 200"
  shows "\<not> list_ex is_launch (new_events tr (snd (call_llm_api e prompt cfg tr))) \<and>
         \<not> list_ex is_sleep (new_events tr (snd (call_llm_api e prompt cfg tr))) \<and>
         length (filter is_probe (new_events tr (snd (call_llm_api e prompt cfg tr)))) = 1 \<and>
         take 2 (new_events tr (snd (call_llm_api e prompt cfg tr))) =
           [HttpGet (get_or ''localhost'' (server_host cfg)) (get_or 8080 (server_port cfg)) (Some 200),
            HttpPost (get_or ''localhost'' (server_host cfg)) (get_or 8080 (server_port cfg)) prompt
              (http_post e (get_or ''localhost'' (server_host cfg)) (get_or 8080 (server_port cfg))
                 prompt
                 (tr @ [HttpGet (get_or ''localhost'' (server_host cfg))
                          (get_or 8080 (server_port cfg)) (Some 200)]))] \<and>
         fst (call_llm_api e prompt cfg tr) =
           Inr (fst (post_completion e (get_or ''localhost'' (server_host cfg))
                      (get_or 8080 (server_port cfg)) prompt
                      (tr @ [HttpGet (get_or ''localhost'' (server_host cfg))
                               (get_or 8080 (server_port cfg)) (Some 200)])))"
proof -
  let ?h = "get_or ''localhost'' (server_host cfg)"
  let ?p = "get_or 8080 (server_port cfg)"
  let ?tr1 = "tr @ [HttpGet ?h ?p (Some 200)]"
  have c: "call_llm_api e prompt cfg tr =
             (Inr (fst (post_completion e ?h ?p prompt ?tr1)),
              snd (post_completion e ?h ?p prompt ?tr1))"
    using assms
    by (simp add: call_llm_api_def Let_def is_server_running_eq split: prod.splits)
  obtain evs where
    evs: "snd (post_completion e ?h ?p prompt ?tr1) =
            ?tr1 @ HttpPost ?h ?p prompt (http_post e ?h ?p prompt ?tr1) # evs"
      "filter is_launch evs = []" "filter is_sleep evs = []" "filter is_probe evs = []"
    using post_completion_events [of e ?h ?p prompt ?tr1] by blast
  have n: "new_events tr (snd (call_llm_api e prompt cfg tr)) =
             HttpGet ?h ?p (Some 200) # HttpPost ?h ?p prompt (http_post e ?h ?p prompt ?tr1) # evs"
    by (simp add: c evs(1) new_events_def)
  show ?thesis
    unfolding n using evs(2-4) by (simp add: c list_ex_iff filter_empty_conv)
qed

theorem healthy_no_launch_witness:
  "http_get (test_env (Completed ''a.txt'' [] 0) True (Some 200) (HttpFault ''timed out'') False)
     (get_or ''localhost'' (server_host default_config))
     (get_or 8080 (server_port default_config)) [] = Some 200 \<and>
   \<not> list_ex is_launch (new_events [] (snd (call_llm_api
       (test_env (Completed ''a.txt'' [] 0) True (Some 200) (HttpFault ''timed out'') False)
       ''list files'' default_config []))) \<and>
   \<not> list_ex is_sleep (new_events [] (snd (call_llm_api
       (test_env (Completed ''a.txt'' [] 0) True (Some 200) (HttpFault ''timed out'') False)
       ''list files'' default_config []))) \<and>
   length (filter is_probe (new_events [] (snd (call_llm_api
       (test_env (Completed ''a.txt'' [] 0) True (Some 200) (HttpFault ''timed out'') False)
       ''list files'' default_config [])))) = 1"
proof -
  let ?e = "test_env (Completed ''a.txt'' [] 0) True (Some 200) (HttpFault ''timed out'') False"
  have h: "http_get ?e (get_or ''localhost'' (server_host default_config))
     (get_or 8080 (server_port default_config)) [] = Some 200"
    by (simp add: test_env_def)
  from healthy_no_launch [OF h, of "''list files''"] h show ?thesis by blast
qed


text \<open>
  Claim C4, as stated, fails: \<open>call_llm_api\<close> returns None for a response with another status
  than 200 and None for a transport fault, so its caller cannot tell the two apart. Here a
  response with status 500 and a refused connection give the same result.
\<close>

theorem same_result_counterexample:
  "fst (call_llm_api
          (test_env (Completed ''a.txt'' [] 0) True (Some 200)
             (HttpResponse 500 (BadBody ''Expecting value'')) True)
          ''list files'' default_config []) = Inr None \<and>
   fst (call_llm_api
          (test_env (Completed ''a.txt'' [] 0) True (Some 200)
             (HttpFault ''Connection refused'') True)
          ''list files'' default_config []) = Inr None"
  by (simp add: call_llm_api_def is_server_running_def post_completion_def Let_def
        test_env_def default_config_def get_or_def)


text \<open>
  Claim C4, amended. With the server running, \<open>call_llm_api\<close> returns the content of the
  first choice for a response with status 200 and a body that has one; for a response with
  another status and for a transport fault it returns the same None, and only the message
  it prints differs: the status code for the one, the text of the exception for the other.
\<close>

theorem call_llm_api_result:
  assumes "http_get e (get_or ''localhost'' (server_host cfg)) (get_or 8080 (server_port cfg)) tr
             = Some 200"
  shows "(http_post e (get_or ''localhost'' (server_host cfg)) (get_or 8080 (server_port cfg))
            prompt
            (tr @ [HttpGet (get_or ''localhost'' (server_host cfg))
                     (get_or 8080 (server_port cfg)) (Some 200)])
            = HttpResponse 200 (Choices (c # cs)) \<longrightarrow>
          call_llm_api e prompt cfg tr =
            (Inr (Some c),
             tr @ [HttpGet (get_or ''localhost'' (server_host cfg))
                     (get_or 8080 (server_port cfg)) (Some 200),
                   HttpPost (get_or ''localhost'' (server_host cfg))
                     (get_or 8080 (server_port cfg)) prompt
                     (HttpResponse 200 (Choices (c # cs)))])) \<and>
         (http_post e (get_or ''localhost'' (server_host cfg)) (get_or 8080 (server_port cfg))
            prompt
            (tr @ [HttpGet (get_or ''localhost'' (server_host cfg))
                     (get_or 8080 (server_port cfg)) (Some 200)])
            = HttpResponse status body \<and> status \<noteq> 200 \<longrightarrow>
          call_llm_api e prompt cfg tr =
            (Inr None,
             tr @ [HttpGet (get_or ''localhost'' (server_host cfg))
                     (get_or 8080 (server_port cfg)) (Some 200),
                   HttpPost (get_or ''localhost'' (server_host cfg))
                     (get_or 8080 (server_port cfg)) prompt (HttpResponse status body),
                   Echo (''Error: API returned status code '' @ str_int status)])) \<and>
         (http_post e (get_or ''localhost'' (server_host cfg)) (get_or 8080 (server_port cfg))
            prompt
            (tr @ [HttpGet (get_or ''localhost'' (server_host cfg))
                     (get_or 8080 (server_port cfg)) (Some 200)])
            = HttpFault msg \<longrightarrow>
          call_llm_api e prompt cfg tr =
            (Inr None,
             tr @ [HttpGet (get_or ''localhost'' (server_host cfg))
                     (get_or 8080 (server_port cfg)) (Some 200),
                   HttpPost (get_or ''localhost'' (server_host cfg))
                     (get_or 8080 (server_port cfg)) prompt (HttpFault msg),
                   Echo (''Error calling API: '' @ msg)]))"
  using assms
  by (simp add: call_llm_api_def is_server_running_def post_completion_def Let_def)

theorem call_llm_api_result_witness:
  "fst (call_llm_api
          (test_env (Completed ''a.txt'' [] 0) True (Some 200)
             (HttpResponse 200 (Choices [''ls -la''])) True)
          ''list files'' default_config []) = Inr (Some ''ls -la'') \<and>
   call_llm_api
          (test_env (Completed ''a.txt'' [] 0) True (Some 200)
             (HttpResponse 500 (BadBody ''Expecting value'')) True)
          ''list files'' default_config [] =
     (Inr None,
      [HttpGet ''localhost'' 8080 (Some 200),
       HttpPost ''localhost'' 8080 ''list files'' (HttpResponse 500 (BadBody ''Expecting value'')),
       Echo ''Error: API returned status code 500'']) \<and>
   call_llm_api
          (test_env (Completed ''a.txt'' [] 0) True (Some 200)
             (HttpFault ''Connection refused'') True)
          ''list files'' default_config [] =
     (Inr None,
      [HttpGet ''localhost'' 8080 (Some 200),
       HttpPost ''localhost'' 8080 ''list files'' (HttpFault ''Connection refused''),
       Echo ''Error calling API: Connection refused''])"
  using call_llm_api_result [of
          "test_env (Completed ''a.txt'' [] 0) True (Some 200)
             (HttpResponse 200 (Choices [''ls -la''])) True"
          default_config "[]" "''list files''" "''ls -la''" "[]"]
        call_llm_api_result [of
          "test_env (Completed ''a.txt'' [] 0) True (Some 200)
             (HttpResponse 500 (BadBody ''Expecting value'')) True"
          default_config "[]" "''list files''" _ _ 500 "BadBody ''Expecting value''"]
        call_llm_api_result [of
          "test_env (Completed ''a.txt'' [] 0) True (Some 200)
             (HttpFault ''Connection refused'') True"
          default_config "[]" "''list files''" _ _ _ _ "''Connection refused''"]
  by (simp add: test_env_def default_config_def get_or_def str_int_500)

section \<open>Facts about the repair path\<close>

lemma has_error_fix_eq: "has_error_fix output = has_error output"
proof -
  have "contains (lower output) ''not found''" if "contains (lower output) ''command not found''"
  proof -
    from that obtain ps ss where "lower output = ps @ (''command '' @ ''not found'') @ ss"
      by (auto simp: contains_sublist sublist_def)
    then have "lower output = (ps @ ''command '') @ ''not found'' @ ss"
      by simp
    then show ?thesis
      by (simp only: contains_append)
  qed
  then show ?thesis by (auto simp: has_error_fix_def has_error_def)
qed

lemma fix_cmd_events:
  "\<exists>xevs rest.
     snd (execute_command e (join '' '' args)
            (tr @ [LoadConfig, Echo ''Attempting to execute command first to see if it has errors...'']))
       = (tr @ [LoadConfig, Echo ''Attempting to execute command first to see if it has errors...''])
           @ xevs \<and>
     length (filter is_run xevs) \<le> 1 \<and> filter is_post xevs = [] \<and> filter is_probe xevs = [] \<and>
     snd (fix_cmd e args tr) =
       tr @ [LoadConfig, Echo ''Attempting to execute command first to see if it has errors...'']
          @ xevs @ rest \<and>
     (if has_error_fix (fst (execute_command e (join '' '' args)
            (tr @ [LoadConfig, Echo ''Attempting to execute command first to see if it has errors...''])))
      then list_ex is_probe rest \<and> length (filter is_run rest) \<le> 1 \<and>
           length (filter is_post rest) \<le> 1
      else filter is_probe rest = [] \<and> filter is_run rest = [] \<and> filter is_post rest = [])"
proof -
  let ?c = "join '' '' args"
  let ?tr1 = "tr @ [LoadConfig, Echo ''Attempting to execute command first to see if it has errors...'']"
  let ?out = "fst (execute_command e ?c ?tr1)"
  obtain xevs where xevs:
    "snd (execute_command e ?c ?tr1) = ?tr1 @ xevs"
    "length (filter is_run xevs) \<le> 1" "filter is_post xevs = []" "filter is_probe xevs = []"
    using execute_command_events [of e ?c ?tr1] by blast
  let ?tr2 = "?tr1 @ xevs"
  show ?thesis
  proof (cases "has_error_fix ?out")
    case False
    then have "snd (fix_cmd e args tr) =
        tr @ [LoadConfig, Echo ''Attempting to execute command first to see if it has errors...'']
          @ xevs @ [EchoStyled ''Command executed successfully:'' ''green'', Echo ?out]"
      using xevs(1) by (simp add: fix_cmd_def load_config_def split_beta Let_def)
    with False xevs show ?thesis
      by (intro exI [of _ xevs]
            exI [of _ "[EchoStyled ''Command executed successfully:'' ''green'', Echo ?out]"]) simp
  next
    case True
    let ?tr3 = "?tr2 @ [EchoStyled ''Command had errors:'' ''red'', Echo ?out,
                        Echo ''\<newline>Attempting to fix the command...'']"
    obtain fevs where fevs:
      "snd (fix_command_errors e ?out ?c ?tr3) = ?tr3 @ fevs"
      "list_ex is_probe fevs" "length (filter is_run fevs) \<le> 1" "length (filter is_post fevs) \<le> 1"
      using fix_command_errors_events [of e ?out ?c ?tr3] by blast
    have "\<exists>x. filter is_run x = [] \<and> filter is_post x = [] \<and>
        snd (fix_cmd e args tr) =
        tr @ [LoadConfig, Echo ''Attempting to execute command first to see if it has errors...'']
          @ xevs @ ([EchoStyled ''Command had errors:'' ''red'', Echo ?out,
                        Echo ''\<newline>Attempting to fix the command...''] @ fevs @ x)"
      using True xevs(1) fevs(1)
      by (simp add: fix_cmd_def load_config_def split_beta Let_def
            split: sum.splits option.splits)
    then obtain x where x: "filter is_run x = []" "filter is_post x = []"
        "snd (fix_cmd e args tr) =
        tr @ [LoadConfig, Echo ''Attempting to execute command first to see if it has errors...'']
          @ xevs @ ([EchoStyled ''Command had errors:'' ''red'', Echo ?out,
                        Echo ''\<newline>Attempting to fix the command...''] @ fevs @ x)"
      by blast
    with True xevs fevs(2-4) show ?thesis
      by (intro exI [of _ xevs]
            exI [of _ "[EchoStyled ''Command had errors:'' ''red'', Echo ?out,
                        Echo ''\<newline>Attempting to fix the command...''] @ fevs @ x"]) simp
  qed
qed

text \<open>
  Claim C3, as stated, fails: the return code of the subprocess is never read. Here the
  command \<open>false\<close> ends with return code 1 and prints nothing; \<open>fix\<close> reports that it
  executed successfully and the repair path is not entered.
\<close>

theorem exit_status_ignored_counterexample:
  "fix_cmd (test_env (Completed [] [] 1) True (Some 200) (HttpFault ''timed out'') True)
     [''false''] [] =
   (Inr (),
    [LoadConfig,
     Echo ''Attempting to execute command first to see if it has errors...'',
     Echo ''\<newline>Executing: false\<newline>'',
     Run ''false'' (Completed [] [] 1),
     EchoStyled ''Command executed successfully:'' ''green'',
     Echo []])"
  by (simp add: fix_cmd_def load_config_def execute_command_def run_subprocess_def Let_def
        test_env_def is_dangerous_def danger_words_def has_error_fix_def lower_def)

text \<open>
  Claim C3, amended. A command execution is classified as a failure iff the text returned by
  the executor contains \<open>error\<close> or \<open>not found\<close>, whatever the case of the letters; the check
  of \<open>fix\<close> and the check of \<open>generate\<close> agree. The text is made of stdout and stderr (or of
  the message of an exception) and is returned as an ordinary value; the return code has no
  part in it. In \<open>fix\<close> the model is consulted iff the text of the first execution is
  classified as a failure.
\<close>

theorem failure_is_text_marker:
  "has_error_fix output = has_error output \<and>
   fst (run_subprocess e command tr) =
     (case shell e command tr of
        Completed out err rc \<Rightarrow> if err \<noteq> [] then out @ ''\<newline>Errors:\<newline>'' @ err else out
      | RunRaised msg \<Rightarrow> ''Error executing command: '' @ msg) \<and>
   list_ex is_probe (new_events tr (snd (fix_cmd e args tr))) =
     has_error (fst (execute_command e (join '' '' args)
       (tr @ [LoadConfig, Echo ''Attempting to execute command first to see if it has errors...''])))"
proof -
  let ?tr1 = "tr @ [LoadConfig, Echo ''Attempting to execute command first to see if it has errors...'']"
  obtain xevs rest where f:
    "filter is_probe xevs = []"
    "snd (fix_cmd e args tr) = tr @ [LoadConfig,
        Echo ''Attempting to execute command first to see if it has errors...''] @ xevs @ rest"
    "if has_error_fix (fst (execute_command e (join '' '' args) ?tr1))
      then list_ex is_probe rest \<and> length (filter is_run rest) \<le> 1 \<and>
           length (filter is_post rest) \<le> 1
      else filter is_probe rest = [] \<and> filter is_run rest = [] \<and> filter is_post rest = []"
    using fix_cmd_events [of e args tr] by blast
  have "list_ex is_probe (new_events tr (snd (fix_cmd e args tr))) =
        has_error_fix (fst (execute_command e (join '' '' args) ?tr1))"
    using f(1,3) unfolding f(2) by (auto simp: list_ex_iff filter_empty_conv split: if_splits)
  moreover have "fst (run_subprocess e command tr) =
     (case shell e command tr of
        Completed out err rc \<Rightarrow> if err \<noteq> [] then out @ ''\<newline>Errors:\<newline>'' @ err else out
      | RunRaised msg \<Rightarrow> ''Error executing command: '' @ msg)"
    by (simp add: run_subprocess_def Let_def split: proc_result.splits)
  ultimately show ?thesis by (simp only: has_error_fix_eq simp_thms)
qed

lemma repair_posts_le_posts: "length (filter is_repair_post evs) \<le> length (filter is_post evs)"
  by (induction evs) (auto dest: is_repair_post_is_post)

lemma repairs_from_no_run: "filter is_run a = [] \<Longrightarrow> repairs_from s a = 0"
  using repairs_from_le [of s a] by simp

lemma no_repair_post_list_ex: "filter is_repair_post a = [] \<Longrightarrow> \<not> list_ex is_repair_post a"
  by (simp add: list_ex_iff filter_empty_conv)

lemma cycle_bounds:
  assumes "filter is_repair_post a = []" "length (filter is_run a) \<le> 1"
    and "length (filter is_run b) \<le> 1" "length (filter is_post b) \<le> 1"
  shows "diagnoses (a @ b) \<le> 1 \<and> repairs (a @ b) \<le> 1 \<and> executions (a @ b) \<le> 2"
proof -
  have "repairs (a @ b) = repairs_from False b"
    using assms(1)
    by (simp add: repairs_def repairs_from_append repairs_from_quiet no_repair_post_list_ex)
  moreover have "repairs_from False b \<le> 1"
    using repairs_from_le [of False b] assms(3) by simp
  moreover have "length (filter is_repair_post b) \<le> 1"
    using repair_posts_le_posts [of b] assms(4) by simp
  ultimately show ?thesis
    using assms(1-3) by (simp add: diagnoses_def executions_def)
qed

lemma cycle_exact:
  assumes "filter is_repair_post a = []" "length (filter is_run a) = 1"
    and "length (filter is_repair_post b) = 1" "repairs_from False b = 1"
    and "length (filter is_run b) = 1"
    and "filter is_run c = []" "filter is_post c = []"
  shows "diagnoses (a @ b @ c) = 1 \<and> repairs (a @ b @ c) = 1 \<and> executions (a @ b @ c) = 2"
proof -
  have "repairs (a @ b @ c) = repairs_from False b + repairs_from (list_ex is_repair_post b) c"
    using assms(1)
    by (simp add: repairs_def repairs_from_append repairs_from_quiet no_repair_post_list_ex)
  then have "repairs (a @ b @ c) = 1"
    using assms(4,6) by (simp add: repairs_from_no_run)
  moreover have "filter is_repair_post c = []"
    using assms(7) by (rule no_post_no_repair_post)
  ultimately show ?thesis
    using assms(1-3,5,6) by (simp add: diagnoses_def executions_def)
qed

lemma fix_cmd_bounds:
  "diagnoses (new_events tr (snd (fix_cmd e args tr))) \<le> 1 \<and>
   repairs (new_events tr (snd (fix_cmd e args tr))) \<le> 1 \<and>
   executions (new_events tr (snd (fix_cmd e args tr))) \<le> 2"
proof -
  let ?tr1 = "tr @ [LoadConfig, Echo ''Attempting to execute command first to see if it has errors...'']"
  obtain xevs rest where f:
    "length (filter is_run xevs) \<le> 1" "filter is_post xevs = []"
    "snd (fix_cmd e args tr) = tr @ [LoadConfig,
        Echo ''Attempting to execute command first to see if it has errors...''] @ xevs @ rest"
    "if has_error_fix (fst (execute_command e (join '' '' args) ?tr1))
      then list_ex is_probe rest \<and> length (filter is_run rest) \<le> 1 \<and>
           length (filter is_post rest) \<le> 1
      else filter is_probe rest = [] \<and> filter is_run rest = [] \<and> filter is_post rest = []"
    using fix_cmd_events [of e args tr] by blast
  let ?a = "[LoadConfig, Echo ''Attempting to execute command first to see if it has errors...'']
            @ xevs"
  have r: "length (filter is_run rest) \<le> 1" "length (filter is_post rest) \<le> 1"
    using f(4) by (auto split: if_splits)
  have a: "filter is_repair_post ?a = []" "length (filter is_run ?a) \<le> 1"
    using f(1) no_post_no_repair_post [OF f(2)] by simp_all
  have "new_events tr (snd (fix_cmd e args tr)) = ?a @ rest"
    unfolding f(3) by simp
  with cycle_bounds [OF a r] show ?thesis by simp
qed

lemma snd_case_sum: "snd (case s of Inl a \<Rightarrow> (f a, t) | Inr b \<Rightarrow> (g b, t)) = t"
  by (cases s) simp_all

lemma generation_prompt_not_repair:
  "\<not> starts_with (generation_prompt d) ''\<newline>The following Linux command failed:''"
  by (simp add: generation_prompt_def)

lemma filter_repair_post_of_posts:
  "filter is_repair_post evs = filter is_repair_post (filter is_post evs)"
  by (induction evs) (auto dest: is_repair_post_is_post)

lemma call_llm_api_generation_events:
  "\<exists>evs. snd (call_llm_api e (generation_prompt d) cfg tr) = tr @ evs \<and>
         filter is_run evs = [] \<and> filter is_repair_post evs = []"
proof -
  let ?q = "generation_prompt d"
  obtain evs where evs: "snd (call_llm_api e ?q cfg tr) = tr @ evs" "filter is_run evs = []"
    "filter is_post evs = [] \<or> (\<exists>h p r. filter is_post evs = [HttpPost h p ?q r])"
    using call_llm_api_events [of e ?q cfg tr] by blast
  have "filter is_repair_post (filter is_post evs) = []"
  proof (cases "filter is_post evs = []")
    case True
    then show ?thesis by simp
  next
    case False
    with evs(3) obtain h p r where "filter is_post evs = [HttpPost h p ?q r]"
      by blast
    then show ?thesis
      using generation_prompt_not_repair [of d] by simp
  qed
  then have "filter is_repair_post evs = []"
    by (simp only: filter_repair_post_of_posts [of evs])
  with evs(1,2) show ?thesis by blast
qed

lemma generate_events:
  "\<exists>a b. snd (generate e d x tr) = tr @ a @ b \<and>
         filter is_repair_post a = [] \<and> length (filter is_run a) \<le> 1 \<and>
         length (filter is_run b) \<le> 1 \<and> length (filter is_post b) \<le> 1"
proof -
  let ?q = "generation_prompt d"
  let ?tr1 = "tr @ [LoadConfig, Echo ''Generating command...'']"
  obtain levs where levs:
    "snd (call_llm_api e ?q (stored_config e) ?tr1) = ?tr1 @ levs"
    "filter is_run levs = []" "filter is_repair_post levs = []"
    using call_llm_api_generation_events [of e d "stored_config e" ?tr1] by blast
  let ?tr2 = "?tr1 @ levs"
  let ?pre = "[LoadConfig, Echo ''Generating command...''] @ levs"
  have pre: "filter is_repair_post ?pre = []" "filter is_run ?pre = []"
    using levs(2,3) by simp_all
  show ?thesis
  proof (cases "\<exists>r. fst (call_llm_api e ?q (stored_config e) ?tr1) = Inr (Some r) \<and> r \<noteq> [] \<and> x")
    case False
    then have "\<exists>y. filter is_run y = [] \<and> filter is_post y = [] \<and>
        snd (generate e d x tr) = tr @ (?pre @ y) @ []"
      using levs(1)
      by (auto simp: generate_def load_config_def split_beta Let_def
            split: sum.splits option.splits)
    then obtain y where y: "filter is_run y = []" "filter is_post y = []"
        "snd (generate e d x tr) = tr @ (?pre @ y) @ []"
      by blast
    from y(1) no_post_no_repair_post [OF y(2)] pre
    have "filter is_repair_post (?pre @ y) = []" "length (filter is_run (?pre @ y)) \<le> 1"
      by simp_all
    with y(3) show ?thesis
      by (intro exI [of _ "?pre @ y"] exI [of _ "[]"]) simp
  next
    case True
    then obtain r where r: "fst (call_llm_api e ?q (stored_config e) ?tr1) = Inr (Some r)"
        "r \<noteq> []" "x"
      by blast
    let ?c = "extract_direct r"
    let ?m1 = "[EchoStyled ''\<newline>Generated Command:'' ''green'',
                EchoStyled (?c @ ''\<newline>'') ''bright_white'', SaveHistory d ?c]"
    let ?tr3 = "?tr2 @ ?m1"
    obtain xevs where xevs:
      "snd (execute_command e ?c ?tr3) = ?tr3 @ xevs"
      "length (filter is_run xevs) \<le> 1" "filter is_post xevs = []"
      using execute_command_events [of e ?c ?tr3] by blast
    let ?out = "fst (execute_command e ?c ?tr3)"
    let ?m2 = "[EchoStyled ''\<newline>Output:'' ''green'', Echo ?out]"
    let ?tr5 = "?tr3 @ xevs @ ?m2"
    let ?p = "''Would you like me to try to fix any errors in this command?''"
    let ?ok = "user_confirm e ?p ?tr5"
    let ?tr6 = "?tr5 @ [Confirm ?p ?ok]"
    obtain fevs where fevs:
      "snd (fix_command_errors e ?out ?c ?tr6) = ?tr6 @ fevs"
      "length (filter is_run fevs) \<le> 1" "length (filter is_post fevs) \<le> 1"
      using fix_command_errors_events [of e ?out ?c ?tr6] by blast
    have "\<exists>y b. filter is_run y = [] \<and> filter is_post y = [] \<and> (b = [] \<or> b = fevs) \<and>
        snd (generate e d x tr) = tr @ (?pre @ ?m1 @ xevs @ ?m2 @ y) @ b"
    proof (cases "has_error ?out")
      case False
      then have "snd (generate e d x tr) = tr @ (?pre @ ?m1 @ xevs @ ?m2 @ []) @ []"
        using levs(1) r xevs(1)
        by (simp add: generate_def load_config_def split_beta Let_def)
      then show ?thesis
        by (intro exI [of _ "[]"]) simp
    next
      case True
      show ?thesis
      proof (cases ?ok)
        case False
        with True have "snd (generate e d x tr) =
            tr @ (?pre @ ?m1 @ xevs @ ?m2 @ [Confirm ?p False]) @ []"
          using levs(1) r xevs(1)
          by (simp add: generate_def load_config_def split_beta Let_def)
        then show ?thesis
          by (intro exI [of _ "[Confirm ?p False]"] exI [of _ "[]"]) simp
      next
        case ok: True
        with True have "snd (generate e d x tr) =
            tr @ (?pre @ ?m1 @ xevs @ ?m2 @ [Confirm ?p True]) @ fevs"
          using levs(1) r xevs(1) fevs(1)
          by (simp add: generate_def load_config_def split_beta Let_def snd_case_sum)
        then show ?thesis
          by (intro exI [of _ "[Confirm ?p True]"] exI [of _ fevs]) simp
      qed
    qed
    then obtain y b where y: "filter is_run y = []" "filter is_post y = []" "b = [] \<or> b = fevs"
        "snd (generate e d x tr) = tr @ (?pre @ ?m1 @ xevs @ ?m2 @ y) @ b"
      by blast
    let ?a = "?pre @ ?m1 @ xevs @ ?m2 @ y"
    from y(1) no_post_no_repair_post [OF y(2)] no_post_no_repair_post [OF xevs(3)] xevs(2) pre
    have a: "filter is_repair_post ?a = []" "length (filter is_run ?a) \<le> 1"
      by simp_all
    from y(3) fevs(2,3) have b: "length (filter is_run b) \<le> 1" "length (filter is_post b) \<le> 1"
      by auto
    from y(4) a b show ?thesis
      by (intro exI [of _ ?a] exI [of _ b]) simp
  qed
qed

lemma generate_bounds:
  "diagnoses (new_events tr (snd (generate e d x tr))) \<le> 1 \<and>
   repairs (new_events tr (snd (generate e d x tr))) \<le> 1 \<and>
   executions (new_events tr (snd (generate e d x tr))) \<le> 2"
proof -
  obtain a b where ab: "snd (generate e d x tr) = tr @ a @ b"
    "filter is_repair_post a = []" "length (filter is_run a) \<le> 1"
    "length (filter is_run b) \<le> 1" "length (filter is_post b) \<le> 1"
    using generate_events [of e d x tr] by blast
  from cycle_bounds [OF ab(2-5)] show ?thesis
    unfolding ab(1) by simp
qed

lemma execute_command_accepted:
  assumes "\<forall>q t. user_confirm e q t"
  shows "\<exists>pre. filter is_run pre = [] \<and> filter is_post pre = [] \<and>
           execute_command e c tr =
             (fst (run_subprocess e c (tr @ pre)), tr @ pre @ [Run c (shell e c (tr @ pre))])"
proof (cases "is_dangerous c")
  case True
  let ?pre = "[Echo (''\<newline>Executing: '' @ c @ ''\<newline>''),
               Confirm ''This command may modify your system. Proceed?'' True]"
  from True assms have "execute_command e c tr =
      (fst (run_subprocess e c (tr @ ?pre)), tr @ ?pre @ [Run c (shell e c (tr @ ?pre))])"
    using run_subprocess_trace [of e c "tr @ ?pre"]
    by (simp add: execute_command_def Let_def prod_eq_iff)
  then show ?thesis
    by (intro exI [of _ ?pre]) simp
next
  case False
  let ?pre = "[Echo (''\<newline>Executing: '' @ c @ ''\<newline>'')]"
  from False have "execute_command e c tr =
      (fst (run_subprocess e c (tr @ ?pre)), tr @ ?pre @ [Run c (shell e c (tr @ ?pre))])"
    using run_subprocess_trace [of e c "tr @ ?pre"]
    by (simp add: execute_command_def Let_def prod_eq_iff)
  then show ?thesis
    by (intro exI [of _ ?pre]) simp
qed

lemma repair_prompt_is_repair:
  "starts_with (repair_prompt t c) ''\<newline>The following Linux command failed:''"
  by (simp add: repair_prompt_def)

lemma call_llm_api_up:
  assumes "\<forall>h p t. http_get e h p t = Some 200"
    and "\<forall>h p q t. \<exists>r cs. http_post e h p q t = HttpResponse 200 (Choices (r # cs)) \<and>
           r \<noteq> [] \<and> extract_scan r \<noteq> None"
  shows "\<exists>h p r cs. r \<noteq> [] \<and> extract_scan r \<noteq> None \<and>
           call_llm_api e q cfg tr =
             (Inr (Some r),
              tr @ [HttpGet h p (Some 200), HttpPost h p q (HttpResponse 200 (Choices (r # cs)))])"
proof -
  let ?h = "get_or ''localhost'' (server_host cfg)"
  let ?p = "get_or 8080 (server_port cfg)"
  let ?tr1 = "tr @ [HttpGet ?h ?p (Some 200)]"
  from assms(2) obtain r cs where r:
    "http_post e ?h ?p q ?tr1 = HttpResponse 200 (Choices (r # cs))" "r \<noteq> []"
    "extract_scan r \<noteq> None"
    by blast
  from assms(1) r(1) have "call_llm_api e q cfg tr =
      (Inr (Some r),
       tr @ [HttpGet ?h ?p (Some 200), HttpPost ?h ?p q (HttpResponse 200 (Choices (r # cs)))])"
    by (simp add: call_llm_api_def is_server_running_def post_completion_def Let_def)
  with r(2,3) show ?thesis by blast
qed

lemma fix_command_errors_cycle:
  assumes "\<forall>q t. user_confirm e q t"
    and "\<forall>h p t. http_get e h p t = Some 200"
    and "\<forall>h p q t. \<exists>r cs. http_post e h p q t = HttpResponse 200 (Choices (r # cs)) \<and>
           r \<noteq> [] \<and> extract_scan r \<noteq> None"
  shows "\<exists>evs. snd (fix_command_errors e t c tr) = tr @ evs \<and>
           length (filter is_repair_post evs) = 1 \<and> repairs_from False evs = 1 \<and>
           length (filter is_run evs) = 1"
proof -
  let ?q = "repair_prompt t c"
  let ?tr0 = "tr @ [LoadConfig]"
  obtain h p r cs where r: "r \<noteq> []" "extract_scan r \<noteq> None"
    "call_llm_api e ?q (stored_config e) ?tr0 =
       (Inr (Some r),
        ?tr0 @ [HttpGet h p (Some 200), HttpPost h p ?q (HttpResponse 200 (Choices (r # cs)))])"
    using call_llm_api_up [OF assms(2,3), of ?q "stored_config e" ?tr0] by blast
  from r(2) obtain fc where fc: "extract_scan r = Some fc" by blast
  let ?p = "''Would you like to execute the fixed command? ['' @ fc @ '']''"
  let ?a = "[LoadConfig, HttpGet h p (Some 200),
             HttpPost h p ?q (HttpResponse 200 (Choices (r # cs))),
             Echo (''\<newline>'' @ r @ ''\<newline>''), Confirm ?p True]"
  obtain pre where pre: "filter is_run pre = []" "filter is_post pre = []"
    "execute_command e fc (tr @ ?a) =
       (fst (run_subprocess e fc ((tr @ ?a) @ pre)),
        (tr @ ?a) @ pre @ [Run fc (shell e fc ((tr @ ?a) @ pre))])"
    using execute_command_accepted [OF assms(1), of fc "tr @ ?a"] by blast
  let ?evs = "?a @ pre @ [Run fc (shell e fc ((tr @ ?a) @ pre))]"
  have "snd (fix_command_errors e t c tr) = tr @ ?evs"
    using r(1,3) fc assms(1) pre(3)
    by (simp add: fix_command_errors_def load_config_def Let_def)
  moreover have "length (filter is_repair_post ?evs) = 1"
    using no_post_no_repair_post [OF pre(2)] repair_prompt_is_repair [of t c] by simp
  moreover have "repairs_from False ?evs = 1"
    using repair_prompt_is_repair [of t c] pre(1)
    by (simp add: repairs_from_append repairs_from_no_run)
  moreover have "length (filter is_run ?evs) = 1"
    using pre(1) by simp
  ultimately show ?thesis by blast
qed

lemma fix_cmd_exact:
  assumes "\<forall>q t. user_confirm e q t"
    and "\<forall>c t. has_error (fst (run_subprocess e c t))"
    and "\<forall>h p t. http_get e h p t = Some 200"
    and "\<forall>h p q t. \<exists>r cs. http_post e h p q t = HttpResponse 200 (Choices (r # cs)) \<and>
           r \<noteq> [] \<and> extract_scan r \<noteq> None"
  shows "diagnoses (new_events tr (snd (fix_cmd e args tr))) = 1 \<and>
         repairs (new_events tr (snd (fix_cmd e args tr))) = 1 \<and>
         executions (new_events tr (snd (fix_cmd e args tr))) = 2"
proof -
  let ?c = "join '' '' args"
  let ?m0 = "[LoadConfig, Echo ''Attempting to execute command first to see if it has errors...'']"
  obtain pre where pre: "filter is_run pre = []" "filter is_post pre = []"
    "execute_command e ?c (tr @ ?m0) =
       (fst (run_subprocess e ?c ((tr @ ?m0) @ pre)),
        (tr @ ?m0) @ pre @ [Run ?c (shell e ?c ((tr @ ?m0) @ pre))])"
    using execute_command_accepted [OF assms(1), of ?c "tr @ ?m0"] by blast
  let ?out = "fst (run_subprocess e ?c ((tr @ ?m0) @ pre))"
  have err: "has_error_fix ?out"
    using assms(2) by (simp only: has_error_fix_eq)
  let ?a = "?m0 @ pre @ [Run ?c (shell e ?c ((tr @ ?m0) @ pre)),
              EchoStyled ''Command had errors:'' ''red'', Echo ?out,
              Echo ''\<newline>Attempting to fix the command...'']"
  obtain fevs where fevs: "snd (fix_command_errors e ?out ?c (tr @ ?a)) = (tr @ ?a) @ fevs"
    "length (filter is_repair_post fevs) = 1" "repairs_from False fevs = 1"
    "length (filter is_run fevs) = 1"
    using fix_command_errors_cycle [OF assms(1,3,4), of ?out ?c "tr @ ?a"] by blast
  have "\<exists>x. filter is_run x = [] \<and> filter is_post x = [] \<and>
          snd (fix_cmd e args tr) = tr @ ?a @ fevs @ x"
    using pre(3) err fevs(1)
    by (simp add: fix_cmd_def load_config_def split_beta Let_def
          split: sum.splits option.splits)
  then obtain x where x: "filter is_run x = []" "filter is_post x = []"
      "snd (fix_cmd e args tr) = tr @ ?a @ fevs @ x"
    by blast
  have a: "filter is_repair_post ?a = []" "length (filter is_run ?a) = 1"
    using pre(1) no_post_no_repair_post [OF pre(2)] by simp_all
  from cycle_exact [OF a fevs(2,3,4) x(1,2)] show ?thesis
    unfolding x(3) by simp
qed

lemma generate_exact:
  assumes "\<forall>q t. user_confirm e q t"
    and "\<forall>c t. has_error (fst (run_subprocess e c t))"
    and "\<forall>h p t. http_get e h p t = Some 200"
    and "\<forall>h p q t. \<exists>r cs. http_post e h p q t = HttpResponse 200 (Choices (r # cs)) \<and>
           r \<noteq> [] \<and> extract_scan r \<noteq> None"
  shows "diagnoses (new_events tr (snd (generate e d True tr))) = 1 \<and>
         repairs (new_events tr (snd (generate e d True tr))) = 1 \<and>
         executions (new_events tr (snd (generate e d True tr))) = 2"
proof -
  let ?q = "generation_prompt d"
  let ?m0 = "[LoadConfig, Echo ''Generating command...'']"
  obtain h p r cs where r: "r \<noteq> []"
    "call_llm_api e ?q (stored_config e) (tr @ ?m0) =
       (Inr (Some r),
        (tr @ ?m0) @ [HttpGet h p (Some 200), HttpPost h p ?q (HttpResponse 200 (Choices (r # cs)))])"
    using call_llm_api_up [OF assms(3,4), of ?q "stored_config e" "tr @ ?m0"] by blast
  let ?c = "extract_direct r"
  let ?m1 = "?m0 @ [HttpGet h p (Some 200), HttpPost h p ?q (HttpResponse 200 (Choices (r # cs))),
               EchoStyled ''\<newline>Generated Command:'' ''green'',
               EchoStyled (?c @ ''\<newline>'') ''bright_white'', SaveHistory d ?c]"
  obtain pre where pre: "filter is_run pre = []" "filter is_post pre = []"
    "execute_command e ?c (tr @ ?m1) =
       (fst (run_subprocess e ?c ((tr @ ?m1) @ pre)),
        (tr @ ?m1) @ pre @ [Run ?c (shell e ?c ((tr @ ?m1) @ pre))])"
    using execute_command_accepted [OF assms(1), of ?c "tr @ ?m1"] by blast
  let ?out = "fst (run_subprocess e ?c ((tr @ ?m1) @ pre))"
  have err: "has_error ?out"
    using assms(2) by blast
  let ?a = "?m1 @ pre @ [Run ?c (shell e ?c ((tr @ ?m1) @ pre)),
              EchoStyled ''\<newline>Output:'' ''green'', Echo ?out,
              Confirm ''Would you like me to try to fix any errors in this command?'' True]"
  obtain fevs where fevs: "snd (fix_command_errors e ?out ?c (tr @ ?a)) = (tr @ ?a) @ fevs"
    "length (filter is_repair_post fevs) = 1" "repairs_from False fevs = 1"
    "length (filter is_run fevs) = 1"
    using fix_command_errors_cycle [OF assms(1,3,4), of ?out ?c "tr @ ?a"] by blast
  have g: "snd (generate e d True tr) = tr @ ?a @ fevs @ []"
    using r pre(3) err fevs(1) assms(1)
    by (simp add: generate_def load_config_def split_beta Let_def snd_case_sum)
  have a: "filter is_repair_post ?a = []" "length (filter is_run ?a) = 1"
    using pre(1) no_post_no_repair_post [OF pre(2)] generation_prompt_not_repair [of d]
    by simp_all
  have e: "filter is_run ([]::event list) = []" "filter is_post ([]::event list) = []"
    by simp_all
  from cycle_exact [OF a fevs(2,3,4) e] show ?thesis
    unfolding g by simp
qed

text \<open>
  Claim C1. In one invocation of \<open>fix\<close> or of \<open>generate\<close>, whatever the environment does, the
  model is asked for a repair at most once, at most one subprocess is run after that
  request, and at most two subprocesses are run in all. When every prompt is accepted,
  every command that is run fails, the server is up and the model always answers with a
  candidate, exactly one repair request is made, exactly one command is run after it, two
  commands are run in all, and nothing more follows although the repaired command failed too.
\<close>

theorem one_repair_cycle:
  "diagnoses (new_events tr (snd (fix_cmd e args tr))) \<le> 1 \<and>
   repairs (new_events tr (snd (fix_cmd e args tr))) \<le> 1 \<and>
   executions (new_events tr (snd (fix_cmd e args tr))) \<le> 2 \<and>
   diagnoses (new_events tr (snd (generate e d x tr))) \<le> 1 \<and>
   repairs (new_events tr (snd (generate e d x tr))) \<le> 1 \<and>
   executions (new_events tr (snd (generate e d x tr))) \<le> 2 \<and>
   ((\<forall>q t. user_confirm e q t) \<and>
    (\<forall>c t. has_error (fst (run_subprocess e c t))) \<and>
    (\<forall>h p t. http_get e h p t = Some 200) \<and>
    (\<forall>h p q t. \<exists>r cs. http_post e h p q t = HttpResponse 200 (Choices (r # cs)) \<and>
        r \<noteq> [] \<and> extract_scan r \<noteq> None) \<longrightarrow>
    diagnoses (new_events tr (snd (fix_cmd e args tr))) = 1 \<and>
    repairs (new_events tr (snd (fix_cmd e args tr))) = 1 \<and>
    executions (new_events tr (snd (fix_cmd e args tr))) = 2 \<and>
    diagnoses (new_events tr (snd (generate e d True tr))) = 1 \<and>
    repairs (new_events tr (snd (generate e d True tr))) = 1 \<and>
    executions (new_events tr (snd (generate e d True tr))) = 2)"
  using fix_cmd_bounds [of tr e args] generate_bounds [of tr e d x]
    fix_cmd_exact [of e tr args] generate_exact [of e tr d]
  by blast

lemma failing_env_confirm: "\<forall>q t. user_confirm failing_env q t"
  by (simp add: failing_env_def test_env_def)

lemma failing_env_output:
  "fst (run_subprocess failing_env c t) = [] @ ''\<newline>Errors:\<newline>'' @ ''bash: catt: command not found''"
  by (simp add: failing_env_def test_env_def run_subprocess_def Let_def)

lemma failing_env_fails: "\<forall>c t. has_error (fst (run_subprocess failing_env c t))"
  by (simp only: failing_env_output has_error_def contains_errors_line simp_thms)

lemma failing_env_health: "\<forall>h p t. http_get failing_env h p t = Some 200"
  by (simp add: failing_env_def test_env_def)

lemma failing_env_candidate:
  "extract_scan ''Use cat instead:\<newline>```bash\<newline>cat file.txt\<newline>```'' = Some ''cat file.txt''"
  by (simp add: extract_scan_def command_lines_def strip_def is_space_def)

lemma failing_env_reply:
  "\<forall>h p q t. \<exists>r cs. http_post failing_env h p q t = HttpResponse 200 (Choices (r # cs)) \<and>
      r \<noteq> [] \<and> extract_scan r \<noteq> None"
  using failing_env_candidate by (simp add: failing_env_def test_env_def)

theorem one_repair_cycle_witness:
  "(\<forall>q t. user_confirm failing_env q t) \<and>
   (\<forall>c t. has_error (fst (run_subprocess failing_env c t))) \<and>
   (\<forall>h p t. http_get failing_env h p t = Some 200) \<and>
   (\<forall>h p q t. \<exists>r cs. http_post failing_env h p q t = HttpResponse 200 (Choices (r # cs)) \<and>
        r \<noteq> [] \<and> extract_scan r \<noteq> None) \<and>
   diagnoses (new_events [] (snd (fix_cmd failing_env [''catt'', ''file.txt''] []))) = 1 \<and>
   repairs (new_events [] (snd (fix_cmd failing_env [''catt'', ''file.txt''] []))) = 1 \<and>
   executions (new_events [] (snd (fix_cmd failing_env [''catt'', ''file.txt''] []))) = 2 \<and>
   diagnoses (new_events [] (snd (generate failing_env ''show file.txt'' True []))) = 1 \<and>
   repairs (new_events [] (snd (generate failing_env ''show file.txt'' True []))) = 1 \<and>
   executions (new_events [] (snd (generate failing_env ''show file.txt'' True []))) = 2"
  using one_repair_cycle [of "[]" failing_env "[''catt'', ''file.txt'']" "''show file.txt''" True]
    failing_env_confirm failing_env_fails failing_env_health failing_env_reply
  by blast

theorem failure_is_text_marker_witness:
  "has_error (fst (execute_command failing_env (join '' '' [''catt'', ''file.txt''])
       ([] @ [LoadConfig, Echo ''Attempting to execute command first to see if it has errors...'']))) \<and>
   list_ex is_probe (new_events [] (snd (fix_cmd failing_env [''catt'', ''file.txt''] [])))"
proof -
  have "has_error (fst (execute_command failing_env (join '' '' [''catt'', ''file.txt''])
       ([] @ [LoadConfig, Echo ''Attempting to execute command first to see if it has errors...''])))"
    by (simp add: execute_command_def is_dangerous_def danger_words_def Let_def
          run_subprocess_def failing_env_def test_env_def has_error_def lower_def lower_char_def)
  with failure_is_text_marker [of _ failing_env _ "[]" "[''catt'', ''file.txt'']"]
  show ?thesis by blast
qed

section \<open>Facts about the extraction\<close>

lemma strip_sublist: "sublist (strip s) s"
proof -
  have "suffix (dropWhile is_space (rev (dropWhile is_space s))) (rev (dropWhile is_space s))"
    by (rule suffix_dropWhile)
  then have "sublist (dropWhile is_space (rev (dropWhile is_space s))) (rev (dropWhile is_space s))"
    by (rule suffix_imp_sublist)
  then have "sublist (strip s) (dropWhile is_space s)"
    by (simp add: strip_def sublist_rev_left)
  moreover have "sublist (dropWhile is_space s) s"
    using suffix_dropWhile [of is_space s] by (rule suffix_imp_sublist)
  ultimately show ?thesis
    by (rule sublist_order.order.trans)
qed

lemma strip_padded:
  assumes "list_all is_space ws1" "list_all is_space ws2"
    and "core \<noteq> []" "\<not> is_space (hd core)" "\<not> is_space (last core)"
  shows "strip (ws1 @ core @ ws2) = core"
proof -
  have a: "dropWhile is_space (ws1 @ core @ ws2) = core @ ws2"
    using assms(1,3,4) by (cases core) (simp_all add: dropWhile_append list_all_iff)
  have "dropWhile is_space (rev ws2 @ rev core) = rev core"
    using assms(2,3,5)
    by (cases core rule: rev_cases) (simp_all add: dropWhile_append list_all_iff)
  with a show ?thesis by (simp add: strip_def)
qed

lemma split_on_line: "d \<notin> set l \<Longrightarrow> split_on d (l @ d # rest) = l # split_on d rest"
  by (induction l) auto

lemma split_on_last: "d \<notin> set l \<Longrightarrow> split_on d l = [l]"
  by (induction l) auto

lemma split_on_join:
  "ls \<noteq> [] \<Longrightarrow> list_all (\<lambda>l. d \<notin> set l) ls \<Longrightarrow> split_on d (join [d] ls) = ls"
proof (induction "[d]" ls rule: join.induct)
  case 1
  then show ?case by simp
next
  case (2 x)
  then show ?case by (simp add: split_on_last)
next
  case (3 x y ys)
  then show ?case by (simp add: split_on_line)
qed

lemma join_snoc: "join sep (ys @ [z]) = (if ys = [] then z else join sep ys @ sep @ z)"
  by (induction sep ys rule: join.induct) auto

lemma remove_all_absent: "\<not> contains s old \<Longrightarrow> remove_all old s = s"
  by (induction s) auto

lemma contains_longer: "contains s (p @ q) \<Longrightarrow> contains s p"
  by (auto simp: contains_sublist sublist_def)

lemma ends_with_append: "ends_with (a @ p) p"
  by (simp add: ends_with_def starts_with_prefix)

text \<open>
  Claim C7. A response is fully wrapped in one fenced block with a language tag when,
  between leading and trailing whitespace, it is an opening line made of the fence and the
  tag, the lines of the body, and a closing line made of the fence alone, the body holding
  no fence of its own. For every such response the extraction of \<open>generate\<close> returns the
  body with its surrounding whitespace removed, so without the tag, and the result
  contains no fence.
\<close>

theorem extract_direct_fenced:
  assumes "list_all is_space ws1" and "list_all is_space ws2"
    and "CHR 0x0A \<notin> set tag"
    and "list_all (\<lambda>l. CHR 0x0A \<notin> set l) body"
    and "\<not> contains (join ''\<newline>'' body) ''```''"
  shows "extract_direct (ws1 @ join ''\<newline>'' ((''```'' @ tag) # body @ [''```'']) @ ws2)
           = strip (join ''\<newline>'' body) \<and>
         \<not> contains (extract_direct
                       (ws1 @ join ''\<newline>'' ((''```'' @ tag) # body @ [''```'']) @ ws2)) ''```''"
proof -
  let ?lines = "(''```'' @ tag) # body @ [''```'']"
  let ?core = "join ''\<newline>'' ?lines"
  let ?B = "join ''\<newline>'' body"
  have core: "?core = ''```'' @ tag @ ''\<newline>'' @ join ''\<newline>'' (body @ [''```''])"
    by (cases body) simp_all
  have tail: "\<exists>a. join ''\<newline>'' (body @ [''```'']) = a @ ''```''"
    by (simp add: join_snoc)
  then obtain a where a: "?core = (''```'' @ tag @ ''\<newline>'' @ a) @ ''```''"
    using core by auto
  have st: "starts_with ?core ''```''"
    by (simp only: core starts_with_prefix) simp
  have en: "ends_with ?core ''```''"
    by (subst a) (rule ends_with_append)
  have "\<exists>rest. ?core = CHR 0x60 # rest"
    by (cases body) simp_all
  then have ne: "?core \<noteq> []" "\<not> is_space (hd ?core)"
    by (auto simp: is_space_def)
  have "last ?core = CHR 0x60"
    by (subst a) simp
  then have la: "\<not> is_space (last ?core)"
    by (simp add: is_space_def)
  have s1: "strip (ws1 @ ?core @ ws2) = ?core"
    using assms(1,2) ne la by (rule strip_padded)
  have "list_all (\<lambda>l. CHR 0x0A \<notin> set l) ?lines"
    using assms(3,4) by simp
  then have sp: "split_on CHR 0x0A ?core = ?lines"
    using split_on_join [of ?lines "CHR 0x0A"] by simp
  have mid: "join ''\<newline>'' (butlast (tl (split_on CHR 0x0A ?core))) = ?B"
    by (simp only: sp list.sel butlast_snoc)
  have nb: "\<not> contains ?B ''```bash''" "\<not> contains ?B ''```shell''"
    using assms(5) contains_longer [of ?B "''```''" "''bash''"]
      contains_longer [of ?B "''```''" "''shell''"] by auto
  have "extract_direct (ws1 @ ?core @ ws2) = strip ?B"
    unfolding extract_direct_def Let_def s1 using st en
    by (simp only: mid if_True simp_thms remove_all_absent [OF nb(1)] remove_all_absent [OF nb(2)]
          remove_all_absent [OF assms(5)])
  moreover have "\<not> contains (strip ?B) ''```''"
  proof
    assume "contains (strip ?B) ''```''"
    then have "sublist ''```'' (strip ?B)" by (simp only: contains_sublist)
    then have "sublist ''```'' ?B"
      using strip_sublist [of ?B] by (rule sublist_order.order.trans)
    then have "contains ?B ''```''" by (simp only: contains_sublist)
    with assms(5) show False by (rule notE)
  qed
  ultimately show ?thesis by simp
qed

theorem extract_direct_fenced_witness:
  "list_all is_space ''  '' \<and> list_all is_space ''\<newline>'' \<and>
   CHR 0x0A \<notin> set ''bash'' \<and>
   list_all (\<lambda>l. CHR 0x0A \<notin> set l) [''ls -la''] \<and>
   \<not> contains (join ''\<newline>'' [''ls -la'']) ''```'' \<and>
   extract_direct (''  '' @ join ''\<newline>'' ((''```'' @ ''bash'') # [''ls -la''] @ [''```'']) @ ''\<newline>'')
     = ''ls -la''"
proof -
  have a: "list_all is_space ''  ''" and b: "list_all is_space ''\<newline>''"
    by (simp_all add: is_space_def)
  have c: "CHR 0x0A \<notin> set ''bash''" by simp
  have d: "list_all (\<lambda>l. CHR 0x0A \<notin> set l) [''ls -la'']" by simp
  have f: "\<not> contains (join ''\<newline>'' [''ls -la'']) ''```''" by simp
  have g: "strip (join ''\<newline>'' [''ls -la'']) = ''ls -la''"
    by (simp add: strip_def is_space_def)
  from extract_direct_fenced [OF a b c d f] g a b c d f show ?thesis by simp
qed

text \<open>The theorem stops at the shape it names: when the closing fence is not on a line of
  its own, the first and the last line are dropped all the same, and nothing is left.\<close>

lemma extract_direct_one_line: "extract_direct ''```bash ls -la```'' = []"
  by (simp add: extract_direct_def strip_def is_space_def ends_with_def Let_def)

lemma scan_lines_no_fence:
  "list_all (\<lambda>l. \<not> is_fence_line l) ls \<Longrightarrow>
   scan_lines b ls = (if b then filter is_collected_line ls else [])"
  by (induction ls) (auto simp: is_fence_line_def is_collected_line_def)

lemma scan_lines_fence:
  "list_all (\<lambda>l. \<not> is_fence_line l) pre \<Longrightarrow> is_fence_line f \<Longrightarrow>
   scan_lines b (pre @ f # rest) =
     (if b then filter is_collected_line pre else []) @ scan_lines (\<not> b) rest"
  by (induction pre) (auto simp: is_fence_line_def is_collected_line_def)

text \<open>One fenced block: the lines collected are the lines of the block that pass the test
  of line 227, in their order; the candidate is the first of them.\<close>

lemma scan_lines_one_block:
  assumes "list_all (\<lambda>l. \<not> is_fence_line l) pre" "is_fence_line f1"
    and "list_all (\<lambda>l. \<not> is_fence_line l) inside" "is_fence_line f2"
    and "list_all (\<lambda>l. \<not> is_fence_line l) post"
  shows "scan_lines False (pre @ f1 # inside @ f2 # post) = filter is_collected_line inside"
  using assms by (simp add: scan_lines_fence scan_lines_no_fence)

text \<open>
  Claim C8. The scan is to return the one line of a fenced block that is neither empty nor
  a comment, and nothing when no fenced block has such a line. The test for a comment
  (line 227) looks at the first character of the line as it stands, while the tests beside
  it look at the line without its surrounding whitespace, so a comment that is indented
  passes for a command. In the first response the block holds one comment and one command,
  and the comment is returned; in the second the block holds a comment only, and it is
  returned where nothing should be; the third, with the comment in the first column, gives
  nothing, as the claim says.
\<close>

theorem indented_comment_is_candidate:
  "extract_scan ''```bash\<newline>  # corrected\<newline>cat file.txt\<newline>```'' = Some ''  # corrected'' \<and>
   extract_scan ''```\<newline>  # nothing to run\<newline>```'' = Some ''  # nothing to run'' \<and>
   extract_scan ''```\<newline># nothing to run\<newline>```'' = None"
  by (simp add: extract_scan_def command_lines_def strip_def is_space_def)

end
